theory Spec2Isabelle
  imports Main "HOL-Library.Sublist"
begin

section \<open>JavaScript strings\<close>

text \<open>
  A JavaScript string is modelled as a \<^typ>\<open>string\<close>, one \<^typ>\<open>char\<close> per code unit
  (code units below 256). The operations below are the built-in string methods that
  the gateway code calls, with the argument shapes it calls them with.
\<close>

abbreviation LF :: char where "LF \<equiv> CHR 0x0A"
abbreviation BACKSLASH :: char where "BACKSLASH \<equiv> CHR 0x5C"
abbreviation DQUOTE :: char where "DQUOTE \<equiv> CHR 0x22"
abbreviation SQUOTE :: char where "SQUOTE \<equiv> CHR 0x27"

text \<open>\<^verbatim>\<open>s.includes(pat)\<close>: \<open>pat\<close> occurs in \<open>s\<close> as a contiguous run.\<close>

fun js_includes :: "string \<Rightarrow> string \<Rightarrow> bool" where
  "js_includes [] pat = (pat = [])"
| "js_includes (c # cs) pat = (prefix pat (c # cs) \<or> js_includes cs pat)"

text \<open>\<^verbatim>\<open>s.startsWith(p)\<close> and \<^verbatim>\<open>s.endsWith(p)\<close>.\<close>

definition js_startsWith :: "string \<Rightarrow> string \<Rightarrow> bool" where
  "js_startsWith s p = prefix p s"

definition js_endsWith :: "string \<Rightarrow> string \<Rightarrow> bool" where
  "js_endsWith s p = prefix (rev p) (rev s)"

text \<open>
  \<^verbatim>\<open>s.trim()\<close>: the white space and line terminators of ECMAScript that fit in one
  byte are TAB, LF, VT, FF, CR, SPACE and NBSP.
\<close>

definition js_whitespace :: "char \<Rightarrow> bool" where
  "js_whitespace c =
     (c = CHR 0x09 \<or> c = CHR 0x0A \<or> c = CHR 0x0B \<or> c = CHR 0x0C \<or> c = CHR 0x0D
      \<or> c = CHR 0x20 \<or> c = CHR 0xA0)"

definition js_trim :: "string \<Rightarrow> string" where
  "js_trim s = rev (dropWhile js_whitespace (rev (dropWhile js_whitespace s)))"

text \<open>Prepend a character to the first block of a split in progress.\<close>

fun cons_first :: "char \<Rightarrow> string list \<Rightarrow> string list" where
  "cons_first c [] = [[c]]"
| "cons_first c (b # bs) = (c # b) # bs"

text \<open>\<^verbatim>\<open>s.split('\n')\<close>.\<close>

fun split_nl :: "string \<Rightarrow> string list" where
  "split_nl [] = [[]]"
| "split_nl (c # cs) = (if c = LF then [] # split_nl cs else cons_first c (split_nl cs))"

text \<open>
  \<^verbatim>\<open>s.split('\n\n')\<close>: separators are taken left to right and do not overlap, so
  three newlines in a row leave one newline at the head of the next block.
\<close>

fun split_nlnl :: "string \<Rightarrow> string list" where
  "split_nlnl (a # b # cs) =
     (if a = LF \<and> b = LF then [] # split_nlnl cs else cons_first a (split_nlnl (b # cs)))"
| "split_nlnl cs = [cs]"

text \<open>\<^verbatim>\<open>s.replace(pat, '')\<close> with a string pattern: only the first occurrence goes.\<close>

fun replace_first_empty :: "string \<Rightarrow> string \<Rightarrow> string" where
  "replace_first_empty [] pat = []"
| "replace_first_empty (c # cs) pat =
     (if prefix pat (c # cs) then drop (length pat) (c # cs)
      else c # replace_first_empty cs pat)"

text \<open>\<^verbatim>\<open>s.replace(/'/g, "'\\''")\<close>: every single quote becomes the four characters \<^verbatim>\<open>'\''\<close>.\<close>

definition escape_single_quotes :: "string \<Rightarrow> string" where
  "escape_single_quotes s =
     concat (map (\<lambda>c. if c = SQUOTE then [SQUOTE, BACKSLASH, SQUOTE, SQUOTE] else [c]) s)"

text \<open>\<^verbatim>\<open>s.lastIndexOf('/')\<close>, with \<open>None\<close> for the result \<open>-1\<close>.\<close>

fun lastIndexOf_slash :: "string \<Rightarrow> nat option" where
  "lastIndexOf_slash [] = None"
| "lastIndexOf_slash (c # cs) =
     (case lastIndexOf_slash cs of
        Some i \<Rightarrow> Some (Suc i)
      | None \<Rightarrow> if c = CHR ''/'' then Some 0 else None)"

text \<open>\<^verbatim>\<open>xs.join(' ')\<close>.\<close>

fun join_space :: "string list \<Rightarrow> string" where
  "join_space [] = []"
| "join_space [x] = x"
| "join_space (x # y # zs) = x @ '' '' @ join_space (y # zs)"

text \<open>Decimal rendering of a non-negative integer, as a template literal prints it.\<close>

definition digit_char :: "nat \<Rightarrow> char" where
  "digit_char d =
     (if d = 0 then CHR ''0'' else if d = 1 then CHR ''1'' else if d = 2 then CHR ''2''
      else if d = 3 then CHR ''3'' else if d = 4 then CHR ''4'' else if d = 5 then CHR ''5''
      else if d = 6 then CHR ''6'' else if d = 7 then CHR ''7'' else if d = 8 then CHR ''8''
      else CHR ''9'')"

fun show_nat :: "nat \<Rightarrow> string" where
  "show_nat n = (if n < 10 then [digit_char n] else show_nat (n div 10) @ [digit_char (n mod 10)])"

declare show_nat.simps [simp del]

section \<open>JSON values and thrown values\<close>

text \<open>
  The result type of \<^verbatim>\<open>JSON.parse\<close>. Numeric payloads are never inspected by the code
  modelled here. \<^verbatim>\<open>JSON.parse\<close> itself is a built-in of the platform: it is a parameter
  of the model, a function \<open>string \<Rightarrow> json option\<close> where \<open>None\<close> is the SyntaxError.
\<close>

datatype json =
    JNull
  | JBool bool
  | JNum int
  | JStr string
  | JArr "json list"
  | JObj "(string \<times> json) list"

text \<open>What a \<^verbatim>\<open>throw\<close> or a rejected promise carries: an \<^verbatim>\<open>Error\<close> with its message, or
  some other value.\<close>

datatype thrown = Error string | NonError

text \<open>
  Property read \<^verbatim>\<open>v.name\<close> for the names the code reads (\<^verbatim>\<open>type\<close>, \<^verbatim>\<open>data\<close>,
  \<^verbatim>\<open>pending\<close>): reading from \<^verbatim>\<open>null\<close> throws a TypeError with the engine's message,
  an object yields its member or \<^verbatim>\<open>undefined\<close> (\<open>None\<close>), every other value yields
  \<^verbatim>\<open>undefined\<close>.
\<close>

fun js_prop :: "json \<Rightarrow> string \<Rightarrow> thrown + json option" where
  "js_prop JNull name =
     Inl (Error (''Cannot read properties of null (reading '' @ [SQUOTE] @ name @ [SQUOTE] @ '')''))"
| "js_prop (JObj members) name = Inr (map_of members name)"
| "js_prop v name = Inr None"

section \<open>Event stream parser (sync.ts)\<close>

text \<open>The body of the loop of \<^verbatim>\<open>parseSSEEvents\<close> over the blocks, and the function itself.\<close>

fun parse_blocks :: "(string \<Rightarrow> json option) \<Rightarrow> string list \<Rightarrow> json list" where
  "parse_blocks JSON_parse [] = []"
| "parse_blocks JSON_parse (block # rest) =
     (let line = js_trim block in
      if line = [] then parse_blocks JSON_parse rest
      else
        let jsonStr = (if js_startsWith line ''data: '' then drop 6 line else line) in
        (case JSON_parse jsonStr of
           Some v \<Rightarrow> v # parse_blocks JSON_parse rest
         | None \<Rightarrow> parse_blocks JSON_parse rest))"

definition parseSSEEvents :: "(string \<Rightarrow> json option) \<Rightarrow> string \<Rightarrow> json list" where
  "parseSSEEvents JSON_parse raw = parse_blocks JSON_parse (split_nlnl raw)"

section \<open>Path and key filters\<close>

text \<open>\<^verbatim>\<open>isCleanPath\<close> of sync.ts.\<close>

definition isCleanPath :: "string \<Rightarrow> bool" where
  "isCleanPath path =
     (if js_includes path [DQUOTE] \<or> js_includes path ''{'' \<or> js_includes path ''}'' then False
      else if js_includes path [BACKSLASH, CHR ''n''] \<or> js_includes path [BACKSLASH, BACKSLASH]
        then False
      else if js_includes path ''timestamp'' \<and> js_includes path ''data'' then False
      else if js_includes path ''tdout'' \<or> js_includes path ''omplete'' then False
      else if js_includes path ''exitCode'' then False
      else True)"

text \<open>The test that \<^verbatim>\<open>cleanCorruptedR2Keys\<close> applies to every listed key:
  \<^verbatim>\<open>obj.key.includes('"') || obj.key.includes('{') || obj.key.includes('\\n')\<close>.\<close>

definition corrupt_key :: "string \<Rightarrow> bool" where
  "corrupt_key key =
     (js_includes key [DQUOTE] \<or> js_includes key ''{'' \<or> js_includes key [BACKSLASH, CHR ''n''])"

text \<open>\<^verbatim>\<open>SKIP_EXTENSIONS\<close> and \<^verbatim>\<open>shouldSkipKey\<close> of the restore module.\<close>

definition SKIP_EXTENSIONS :: "string list" where
  "SKIP_EXTENSIONS = [''.jsonl'', ''.bak'']"

definition shouldSkipKey :: "string \<Rightarrow> bool" where
  "shouldSkipKey key =
     (if js_endsWith key ''/'' then True
      else if list_ex (\<lambda>ext. js_includes key ext) SKIP_EXTENSIONS then True
      else if js_includes key [DQUOTE] \<or> js_includes key ''{''
              \<or> js_includes key [BACKSLASH, CHR ''n''] then True
      else False)"

section \<open>The platform: sandbox, bucket, clock\<close>

text \<open>
  The sandbox runtime, the object-storage bucket binding and the clock are collaborators
  outside the repository. They are a parameter of the model: a record of operations over
  an arbitrary world state \<open>'w\<close>. An operation that can reject answers \<open>Inl\<close> with what
  it throws. Every call is appended to a trace of events, so that what a function did to
  its collaborators can be stated.
\<close>

record process =
  proc_id :: string
  command :: string
  status :: string

text \<open>The answer of \<^verbatim>\<open>bucket.list\<close>: the keys of the page, and the pagination fields.\<close>

record list_result =
  objects :: "string list"
  truncated :: bool
  cursor :: "string option"

text \<open>
  The outcome of racing a streamed file read against a timer, as \<^verbatim>\<open>readFile\<close> of the
  admin routes does: the read delivered its chunks, the read rejected, or the timer won.
\<close>

datatype read_race = Chunks "string list" | ReadRejects thrown | TimerFirst

record 'w platform =
  JSON_parse :: "string \<Rightarrow> json option"
  has_bucket :: bool
  sandbox_execStream :: "string \<Rightarrow> 'w \<Rightarrow> (thrown + string list) \<times> 'w"
  sandbox_readFileStream :: "string \<Rightarrow> 'w \<Rightarrow> (thrown + string list) \<times> 'w"
  sandbox_readFileStream_race :: "string \<Rightarrow> nat \<Rightarrow> 'w \<Rightarrow> read_race \<times> 'w"
  sandbox_writeFile :: "string \<Rightarrow> string \<Rightarrow> 'w \<Rightarrow> (thrown + unit) \<times> 'w"
  sandbox_mkdir :: "string \<Rightarrow> 'w \<Rightarrow> (thrown + unit) \<times> 'w"
  sandbox_startProcess :: "string \<Rightarrow> 'w \<Rightarrow> (thrown + unit) \<times> 'w"
  sandbox_listProcesses :: "'w \<Rightarrow> (thrown + process list) \<times> 'w"
  process_kill :: "process \<Rightarrow> 'w \<Rightarrow> (thrown + unit) \<times> 'w"
  bucket_get :: "string \<Rightarrow> 'w \<Rightarrow> (thrown + string option) \<times> 'w"
  bucket_put :: "string \<Rightarrow> string \<Rightarrow> 'w \<Rightarrow> (thrown + unit) \<times> 'w"
  bucket_delete :: "string \<Rightarrow> 'w \<Rightarrow> (thrown + unit) \<times> 'w"
  bucket_list :: "string option \<Rightarrow> string option \<Rightarrow> 'w \<Rightarrow> (thrown + list_result) \<times> 'w"
  Date_now :: "'w \<Rightarrow> nat \<times> 'w"
  Date_toISOString :: "'w \<Rightarrow> string \<times> 'w"
  ensureMoltbotGateway :: "'w \<Rightarrow> (thrown + unit) \<times> 'w"

text \<open>
  One event per call. A write, put, delete, kill or process start records whether it
  resolved; a bucket get records the body it answered with (\<open>None\<close> for \<^verbatim>\<open>null\<close> or
  a rejection); a raced file read records the content it delivered in time, if any; a
  reading of the clock records the time read.
\<close>

datatype event =
    ExecStream string
  | ReadFileStream string
  | ReadFileRaced string nat "string option"
  | WriteFile string string bool
  | Mkdir string
  | StartProcess string bool
  | ListProcesses
  | Kill process bool
  | R2Get string "string option"
  | R2Put string string bool
  | R2Delete string bool
  | R2List "string option" "string option"
  | Sleep int
  | DateNow nat
  | DateISO string
  | EnsureGateway bool

type_synonym 'w run = "'w \<times> event list"

definition invoke :: "('w \<Rightarrow> 'a \<times> 'w) \<Rightarrow> ('a \<Rightarrow> event) \<Rightarrow> 'w run \<Rightarrow> 'a \<times> 'w run" where
  "invoke op ev s = (case op (fst s) of (r, w') \<Rightarrow> (r, (w', snd s @ [ev r])))"

definition resolved :: "thrown + 'a \<Rightarrow> bool" where
  "resolved r = (case r of Inl e \<Rightarrow> False | Inr v \<Rightarrow> True)"

definition body_of :: "thrown + string option \<Rightarrow> string option" where
  "body_of r = (case r of Inl e \<Rightarrow> None | Inr b \<Rightarrow> b)"

text \<open>\<^verbatim>\<open>await new Promise((r) => setTimeout(r, ms))\<close>.\<close>

definition sleep :: "int \<Rightarrow> 'w run \<Rightarrow> 'w run" where
  "sleep ms s = (fst s, snd s @ [Sleep ms])"

section \<open>Bounded command runner (admin routes)\<close>

definition CLI_TIMEOUT_MS :: int where
  "CLI_TIMEOUT_MS = 15000"

definition DONE_MARKER :: string where
  "DONE_MARKER = ''__EXEC_DONE__''"

text \<open>\<^verbatim>\<open>readFile\<close>: the concatenated chunks, or \<^verbatim>\<open>null\<close> (\<open>None\<close>) when the read rejects
  (the \<^verbatim>\<open>catch\<close>) or the timer wins the race.\<close>

definition race_content :: "read_race \<Rightarrow> string option" where
  "race_content r =
     (case r of
        Chunks cs \<Rightarrow> Some (concat cs)
      | ReadRejects e \<Rightarrow> None
      | TimerFirst \<Rightarrow> None)"

definition readFile :: "'w platform \<Rightarrow> string \<Rightarrow> nat \<Rightarrow> 'w run \<Rightarrow> string option \<times> 'w run" where
  "readFile P path timeoutMs s =
     (case invoke (sandbox_readFileStream_race P path timeoutMs)
             (\<lambda>r. ReadFileRaced path timeoutMs (race_content r)) s of
        (r, s1) \<Rightarrow> (race_content r, s1))"

text \<open>\<^verbatim>\<open>content.replace(DONE_MARKER, '').trim()\<close>.\<close>

definition strip_marker :: "string \<Rightarrow> string" where
  "strip_marker content = js_trim (replace_first_empty content DONE_MARKER)"

text \<open>\<^verbatim>\<open>content !== null && content.includes(DONE_MARKER)\<close>.\<close>

definition has_marker :: "string option \<Rightarrow> bool" where
  "has_marker content = (case content of None \<Rightarrow> False | Some c \<Rightarrow> js_includes c DONE_MARKER)"

text \<open>The output file and the wrapped shell command that \<^verbatim>\<open>execCommand\<close> builds from the
  time tag.\<close>

definition exec_outFile :: "nat \<Rightarrow> string" where
  "exec_outFile tag = ''/tmp/exec-'' @ show_nat tag @ ''.out''"

definition exec_shellCmd :: "string \<Rightarrow> nat \<Rightarrow> string" where
  "exec_shellCmd cmd tag =
     (let outFile = exec_outFile tag;
          escaped = escape_single_quotes cmd
      in ''sh -c '' @ [SQUOTE] @ ''timeout 12 '' @ escaped @ '' > '' @ outFile
           @ '' 2>&1; echo '' @ DONE_MARKER @ '' >> '' @ outFile @ [SQUOTE])"

definition execCommand ::
  "'w platform \<Rightarrow> string \<Rightarrow> int \<Rightarrow> 'w run \<Rightarrow> (thrown + string) \<times> 'w run" where
  "execCommand P cmd timeoutMs s =
     (case invoke (Date_now P) (\<lambda>r. DateNow r) s of
        (tag, s0) \<Rightarrow>
          let outFile = exec_outFile tag;
              shellCmd = exec_shellCmd cmd tag
          in
          (case invoke (sandbox_startProcess P shellCmd)
                  (\<lambda>r. StartProcess shellCmd (resolved r)) s0 of
             (Inl e, s1) \<Rightarrow> (Inl e, s1)
           | (Inr u, s1) \<Rightarrow>
               let waitMs = min (timeoutMs - 2000) 10000 in
               (case readFile P outFile 5000 (sleep waitMs s1) of
                  (content, s2) \<Rightarrow>
                    if has_marker content then (Inr (strip_marker (the content)), s2)
                    else if content = None \<or> \<not> has_marker content then
                      (case readFile P outFile 5000 (sleep 3000 s2) of
                         (Some retry, s3) \<Rightarrow> (Inr (strip_marker retry), s3)
                       | (None, s3) \<Rightarrow>
                           (Inr (case content of Some c \<Rightarrow> strip_marker c | None \<Rightarrow> []), s3))
                    else (Inr (case content of Some c \<Rightarrow> strip_marker c | None \<Rightarrow> []), s2))))"

section \<open>Orphan cleanup and the device listing (admin routes)\<close>

definition isGateway :: "process \<Rightarrow> bool" where
  "isGateway proc =
     (js_includes (command proc) ''start-openclaw.sh''
      \<or> js_includes (command proc) ''openclaw gateway''
      \<or> js_includes (command proc) ''start-moltbot.sh''
      \<or> js_includes (command proc) ''clawdbot gateway'')"

text \<open>The body of the loop of \<^verbatim>\<open>cleanupOrphanedProcesses\<close> for one process, and the loop.\<close>

definition cleanup_process :: "'w platform \<Rightarrow> process \<Rightarrow> nat \<Rightarrow> 'w run \<Rightarrow> nat \<times> 'w run" where
  "cleanup_process P proc killed s =
     (if \<not> isGateway proc \<and> (status proc = ''running'' \<or> status proc = ''starting'') then
        (case invoke (process_kill P proc) (\<lambda>r. Kill proc (resolved r)) s of
           (Inr u, s1) \<Rightarrow> (killed + 1, s1)
         | (Inl e, s1) \<Rightarrow> (killed, s1))
      else (killed, s))"

fun cleanup_processes :: "'w platform \<Rightarrow> process list \<Rightarrow> nat \<Rightarrow> 'w run \<Rightarrow> nat \<times> 'w run" where
  "cleanup_processes P [] killed s = (killed, s)"
| "cleanup_processes P (proc # rest) killed s =
     (case cleanup_process P proc killed s of (killed', s1) \<Rightarrow> cleanup_processes P rest killed' s1)"

definition cleanupOrphanedProcesses :: "'w platform \<Rightarrow> 'w run \<Rightarrow> nat \<times> 'w run" where
  "cleanupOrphanedProcesses P s =
     (case invoke (sandbox_listProcesses P) (\<lambda>r. ListProcesses) s of
        (Inl e, s1) \<Rightarrow> (0, s1)
      | (Inr processes, s1) \<Rightarrow>
          if length processes \<le> 5 then (0, s1) else cleanup_processes P processes 0 s1)"

text \<open>
  \<^verbatim>\<open>stdout.match(/\{[\s\S]*\}/)\<close>: the leftmost match starts at the first opening brace
  that has a closing brace after it, and the greedy star runs to the last closing brace.
\<close>

definition regex_brace_span :: "string \<Rightarrow> string option" where
  "regex_brace_span stdout =
     (let rest = dropWhile (\<lambda>c. c \<noteq> CHR ''{'') stdout in
      if CHR ''}'' \<in> set rest then Some (rev (dropWhile (\<lambda>c. c \<noteq> CHR ''}'') (rev rest)))
      else None)"

text \<open>The value returned when nothing parses:
  \<^verbatim>\<open>{ pending: [], paired: [], raw: stdout || 'No output from CLI' }\<close>.\<close>

definition devices_fallback :: "string \<Rightarrow> json" where
  "devices_fallback stdout =
     JObj [(''pending'', JArr []), (''paired'', JArr []),
           (''raw'', JStr (if stdout = [] then ''No output from CLI'' else stdout))]"

text \<open>The end of the handler of \<^verbatim>\<open>GET /devices\<close>: from the command output to the result.\<close>

definition devices_payload :: "'w platform \<Rightarrow> string \<Rightarrow> json" where
  "devices_payload P stdout =
     (case regex_brace_span stdout of
        Some jsonMatch \<Rightarrow>
          (case JSON_parse P jsonMatch of
             Some v \<Rightarrow> v
           | None \<Rightarrow> devices_fallback stdout)
      | None \<Rightarrow> devices_fallback stdout)"

text \<open>
  The handler of \<^verbatim>\<open>GET /devices\<close>. \<^verbatim>\<open>ensureMoltbotGateway\<close> belongs to the process
  module, which is not modelled: it is an operation of the platform here. The route
  races this handler against a 20 s timer; the timer is not modelled.
\<close>

definition devices_handler ::
  "'w platform \<Rightarrow> string option \<Rightarrow> 'w run \<Rightarrow> (thrown + json) \<times> 'w run" where
  "devices_handler P token s =
     (case invoke (ensureMoltbotGateway P) (\<lambda>r. EnsureGateway (resolved r)) s of
        (Inl e, s1) \<Rightarrow> (Inl e, s1)
      | (Inr u, s1) \<Rightarrow>
          (case cleanupOrphanedProcesses P s1 of
             (n, s2) \<Rightarrow>
               let tokenArg = (case token of
                                 Some t \<Rightarrow> if t = [] then [] else '' --token '' @ t
                               | None \<Rightarrow> []);
                   cmd = ''openclaw devices list --json --url ws://localhost:18789'' @ tokenArg
               in
               (case execCommand P cmd CLI_TIMEOUT_MS s2 of
                  (Inl e, s3) \<Rightarrow> (Inl e, s3)
                | (Inr stdout, s3) \<Rightarrow> (Inr (devices_payload P stdout), s3))))"

section \<open>Pagination\<close>

text \<open>
  Both paginated walks end with \<^verbatim>\<open>cursor = list.truncated ? list.cursor : undefined\<close>
  and \<^verbatim>\<open>while (cursor)\<close>: the walk goes on when the page is truncated and carries a
  cursor that is not the empty string.
\<close>

definition next_cursor :: "list_result \<Rightarrow> string option" where
  "next_cursor list =
     (if truncated list then
        (case cursor list of None \<Rightarrow> None | Some c \<Rightarrow> if c = [] then None else Some c)
      else None)"

section \<open>State restore engine\<close>

definition RESTORE_PREFIXES :: "(string \<times> string) list" where
  "RESTORE_PREFIXES = [(''openclaw/'', ''/root/.openclaw''), (''workspace/'', ''/root/clawd'')]"

definition mkdirCached ::
  "'w platform \<Rightarrow> string \<Rightarrow> string set \<Rightarrow> 'w run \<Rightarrow> string set \<times> 'w run" where
  "mkdirCached P dir cache s =
     (if dir \<in> cache then (cache, s)
      else (case invoke (sandbox_mkdir P dir) (\<lambda>r. Mkdir dir) s of
              (r, s1) \<Rightarrow> (insert dir cache, s1)))"

text \<open>\<^verbatim>\<open>if (lastSlash > 0) await mkdirCached(sandbox, containerPath.slice(0, lastSlash), createdDirs)\<close>.\<close>

definition ensure_parent ::
  "'w platform \<Rightarrow> string \<Rightarrow> string set \<Rightarrow> 'w run \<Rightarrow> string set \<times> 'w run" where
  "ensure_parent P containerPath createdDirs s =
     (case lastIndexOf_slash containerPath of
        None \<Rightarrow> (createdDirs, s)
      | Some lastSlash \<Rightarrow>
          if lastSlash > 0
          then mkdirCached P (take lastSlash containerPath) createdDirs s
          else (createdDirs, s))"

text \<open>The body of the loop of \<^verbatim>\<open>restorePrefix\<close> over the objects of one page.\<close>

definition restore_object ::
  "'w platform \<Rightarrow> string \<Rightarrow> string \<Rightarrow> string \<Rightarrow> nat \<Rightarrow> string set \<Rightarrow> 'w run
     \<Rightarrow> nat \<times> string set \<times> 'w run" where
  "restore_object P pfx containerDir key count createdDirs s =
     (if shouldSkipKey key then (count, createdDirs, s)
      else
        let relativePath = drop (length pfx) key in
        if relativePath = [] then (count, createdDirs, s)
        else
          let containerPath = containerDir @ ''/'' @ relativePath in
          (case ensure_parent P containerPath createdDirs s of
             (dirs1, s1) \<Rightarrow>
               (case invoke (bucket_get P key) (\<lambda>r. R2Get key (body_of r)) s1 of
                  (Inl e, s2) \<Rightarrow> (count, dirs1, s2)
                | (Inr None, s2) \<Rightarrow> (count, dirs1, s2)
                | (Inr (Some content), s2) \<Rightarrow>
                    (case invoke (sandbox_writeFile P containerPath content)
                            (\<lambda>r. WriteFile containerPath content (resolved r)) s2 of
                       (Inl e, s3) \<Rightarrow> (count, dirs1, s3)
                     | (Inr u, s3) \<Rightarrow> (count + 1, dirs1, s3)))))"

fun restore_objects ::
  "'w platform \<Rightarrow> string \<Rightarrow> string \<Rightarrow> string list \<Rightarrow> nat \<Rightarrow> string set \<Rightarrow> 'w run
     \<Rightarrow> nat \<times> string set \<times> 'w run" where
  "restore_objects P pfx containerDir [] count createdDirs s = (count, createdDirs, s)"
| "restore_objects P pfx containerDir (key # rest) count createdDirs s =
     (case restore_object P pfx containerDir key count createdDirs s of
        (count', dirs', s') \<Rightarrow> restore_objects P pfx containerDir rest count' dirs' s')"

text \<open>The \<^verbatim>\<open>do ... while (cursor)\<close> loop of \<^verbatim>\<open>restorePrefix\<close>; \<open>None\<close> is a walk that
  never ends.\<close>

partial_function (option) restore_pages ::
  "'w platform \<Rightarrow> string \<Rightarrow> string \<Rightarrow> string option \<Rightarrow> nat \<Rightarrow> string set \<Rightarrow> 'w run
     \<Rightarrow> ((thrown + nat) \<times> 'w run) option" where
  "restore_pages P pfx containerDir cur count createdDirs s =
     (case invoke (bucket_list P (Some pfx) cur) (\<lambda>r. R2List (Some pfx) cur) s of
        (Inl e, s1) \<Rightarrow> Some (Inl e, s1)
      | (Inr listResult, s1) \<Rightarrow>
          (case restore_objects P pfx containerDir (objects listResult) count createdDirs s1 of
             (count', dirs', s2) \<Rightarrow>
               (case next_cursor listResult of
                  Some c \<Rightarrow> restore_pages P pfx containerDir (Some c) count' dirs' s2
                | None \<Rightarrow> Some (Inr count', s2))))"

declare restore_pages.simps [code]

definition restorePrefix ::
  "'w platform \<Rightarrow> string \<Rightarrow> string \<Rightarrow> 'w run \<Rightarrow> ((thrown + nat) \<times> 'w run) option" where
  "restorePrefix P pfx containerDir s =
     (case mkdirCached P containerDir {} s of
        (createdDirs, s1) \<Rightarrow> restore_pages P pfx containerDir None 0 createdDirs s1)"

text \<open>The loop of \<^verbatim>\<open>restoreFromR2\<close> over the prefixes: a prefix whose restore throws is
  logged and contributes nothing.\<close>

fun restore_prefixes ::
  "'w platform \<Rightarrow> (string \<times> string) list \<Rightarrow> nat \<Rightarrow> 'w run \<Rightarrow> (nat \<times> 'w run) option" where
  "restore_prefixes P [] totalFiles s = Some (totalFiles, s)"
| "restore_prefixes P ((pfx, containerDir) # rest) totalFiles s =
     (case restorePrefix P pfx containerDir s of
        None \<Rightarrow> None
      | Some (Inl e, s1) \<Rightarrow> restore_prefixes P rest totalFiles s1
      | Some (Inr count, s1) \<Rightarrow> restore_prefixes P rest (totalFiles + count) s1)"

text \<open>\<^verbatim>\<open>restoreFromR2\<close>: its result is a boolean. A rejection of the first
  \<^verbatim>\<open>bucket.get\<close> is not caught and rejects the whole call.\<close>

definition restoreFromR2 ::
  "'w platform \<Rightarrow> 'w run \<Rightarrow> ((thrown + bool) \<times> 'w run) option" where
  "restoreFromR2 P s =
     (if \<not> has_bucket P then Some (Inr False, s)
      else
        (case invoke (bucket_get P ''.last-sync'') (\<lambda>r. R2Get ''.last-sync'' (body_of r)) s of
           (Inl e, s1) \<Rightarrow> Some (Inl e, s1)
         | (Inr None, s1) \<Rightarrow> Some (Inr False, s1)
         | (Inr (Some lastSync), s1) \<Rightarrow>
             (case restore_prefixes P RESTORE_PREFIXES 0 s1 of
                None \<Rightarrow> None
              | Some (totalFiles, s2) \<Rightarrow>
                  if totalFiles > 0 then
                    (case invoke (sandbox_writeFile P ''/root/.openclaw/.last-sync'' lastSync)
                            (\<lambda>r. WriteFile ''/root/.openclaw/.last-sync'' lastSync (resolved r)) s2 of
                       (r, s3) \<Rightarrow> Some (Inr True, s3))
                  else Some (Inr False, s2))))"

section \<open>State sync engine\<close>

record SyncResult =
  success :: bool
  lastSync :: "string option"
  error :: "string option"
  details :: "string option"

text \<open>
  \<^verbatim>\<open>readStreamToString(await sandbox.execStream(cmd))\<close> and the same for
  \<^verbatim>\<open>readFileStream\<close>: the platform answers with the decoded chunks of the stream, or
  with what the call or a read of the stream throws; the chunks are concatenated. These
  awaits carry no timer: the model covers the runs in which they settle.
\<close>

definition readStreamToString :: "string list \<Rightarrow> string" where
  "readStreamToString chunks = foldl (\<lambda>raw value. raw @ value) [] chunks"

text \<open>The inner loop of \<^verbatim>\<open>listContainerFiles\<close>: the paths that one stdout event admits.\<close>

definition admitted_paths :: "string \<Rightarrow> string list" where
  "admitted_paths data =
     filter (\<lambda>path. path \<noteq> [] \<and> js_startsWith path ''/'' \<and> isCleanPath path)
       (split_nl (js_trim data))"

text \<open>The outer loop of \<^verbatim>\<open>listContainerFiles\<close> over the events.\<close>

fun collect_files :: "json list \<Rightarrow> string list \<Rightarrow> thrown + string list" where
  "collect_files [] files = Inr files"
| "collect_files (evt # rest) files =
     (case js_prop evt ''type'' of
        Inl e \<Rightarrow> Inl e
      | Inr t \<Rightarrow>
          if t = Some (JStr ''stdout'') then
            (case js_prop evt ''data'' of
               Inl e \<Rightarrow> Inl e
             | Inr (Some (JStr data)) \<Rightarrow> collect_files rest (files @ admitted_paths data)
             | Inr other \<Rightarrow> collect_files rest files)
          else collect_files rest files)"

definition find_command :: "string \<Rightarrow> string list \<Rightarrow> string" where
  \<open>find_command dirPath excludeDirs =
     (let excludeArgs = join_space (map (\<lambda>d. ''-not -path "*/'' @ d @ ''/*"'') excludeDirs) in
      ''find '' @ dirPath @ '' -type f '' @ excludeArgs
        @ '' -not -path "*/.git/*" -not -name "*.lock" -not -name "*.log" -not -name "*.tmp" 2>/dev/null || true'')\<close>

definition listContainerFiles ::
  "'w platform \<Rightarrow> string \<Rightarrow> string list \<Rightarrow> 'w run \<Rightarrow> (thrown + string list) \<times> 'w run" where
  "listContainerFiles P dirPath excludeDirs s =
     (let cmd = find_command dirPath excludeDirs in
      case invoke (sandbox_execStream P cmd) (\<lambda>r. ExecStream cmd) s of
        (Inl e, s1) \<Rightarrow> (Inl e, s1)
      | (Inr chunks, s1) \<Rightarrow>
          (collect_files (parseSSEEvents (JSON_parse P) (readStreamToString chunks)) [], s1))"

text \<open>The loop of \<^verbatim>\<open>syncDirectory\<close> that rebuilds the content from the chunk events.\<close>

fun chunk_content :: "json list \<Rightarrow> string \<Rightarrow> thrown + string" where
  "chunk_content [] fileContent = Inr fileContent"
| "chunk_content (evt # rest) fileContent =
     (case js_prop evt ''type'' of
        Inl e \<Rightarrow> Inl e
      | Inr t \<Rightarrow>
          if t = Some (JStr ''chunk'') then
            (case js_prop evt ''data'' of
               Inl e \<Rightarrow> Inl e
             | Inr (Some (JStr data)) \<Rightarrow> chunk_content rest (fileContent @ data)
             | Inr other \<Rightarrow> chunk_content rest fileContent)
          else chunk_content rest fileContent)"

text \<open>
  The body of the loop of \<^verbatim>\<open>syncDirectory\<close> for one file. Everything in it sits in a
  \<^verbatim>\<open>try\<close> whose \<^verbatim>\<open>catch\<close> logs and goes on to the next file.
\<close>

definition sync_file ::
  "'w platform \<Rightarrow> string \<Rightarrow> string \<Rightarrow> string \<Rightarrow> nat \<Rightarrow> 'w run \<Rightarrow> nat \<times> 'w run" where
  "sync_file P containerDir r2Prefix filePath count s =
     (let relativePath = drop (length containerDir + 1) filePath;
          r2Key = r2Prefix @ ''/'' @ relativePath
      in
      case invoke (sandbox_readFileStream P filePath) (\<lambda>r. ReadFileStream filePath) s of
        (Inl e, s1) \<Rightarrow> (count, s1)
      | (Inr chunks, s1) \<Rightarrow>
          (case chunk_content (parseSSEEvents (JSON_parse P) (readStreamToString chunks)) [] of
             Inl e \<Rightarrow> (count, s1)
           | Inr fileContent \<Rightarrow>
               if fileContent \<noteq> [] then
                 (case invoke (bucket_put P r2Key fileContent)
                         (\<lambda>r. R2Put r2Key fileContent (resolved r)) s1 of
                    (Inl e, s2) \<Rightarrow> (count, s2)
                  | (Inr u, s2) \<Rightarrow> (count + 1, s2))
               else (count, s1)))"

fun sync_files ::
  "'w platform \<Rightarrow> string \<Rightarrow> string \<Rightarrow> string list \<Rightarrow> nat \<Rightarrow> 'w run \<Rightarrow> nat \<times> 'w run" where
  "sync_files P containerDir r2Prefix [] count s = (count, s)"
| "sync_files P containerDir r2Prefix (filePath # rest) count s =
     (case sync_file P containerDir r2Prefix filePath count s of
        (count', s') \<Rightarrow> sync_files P containerDir r2Prefix rest count' s')"

definition syncDirectory ::
  "'w platform \<Rightarrow> string \<Rightarrow> string \<Rightarrow> string list \<Rightarrow> 'w run \<Rightarrow> (thrown + nat) \<times> 'w run" where
  "syncDirectory P containerDir r2Prefix excludeDirs s =
     (case listContainerFiles P containerDir excludeDirs s of
        (Inl e, s1) \<Rightarrow> (Inl e, s1)
      | (Inr files, s1) \<Rightarrow>
          (case sync_files P containerDir r2Prefix files 0 s1 of
             (count, s2) \<Rightarrow> (Inr count, s2)))"

text \<open>The body of the loop of \<^verbatim>\<open>cleanCorruptedR2Keys\<close> for one listed key, and the loop
  over one page.\<close>

definition sweep_key :: "'w platform \<Rightarrow> string \<Rightarrow> nat \<Rightarrow> 'w run \<Rightarrow> nat \<times> 'w run" where
  "sweep_key P key deleted s =
     (if corrupt_key key then
        (case invoke (bucket_delete P key) (\<lambda>r. R2Delete key (resolved r)) s of
           (Inl e, s1) \<Rightarrow> (deleted, s1)
         | (Inr u, s1) \<Rightarrow> (deleted + 1, s1))
      else (deleted, s))"

fun sweep_objects :: "'w platform \<Rightarrow> string list \<Rightarrow> nat \<Rightarrow> 'w run \<Rightarrow> nat \<times> 'w run" where
  "sweep_objects P [] deleted s = (deleted, s)"
| "sweep_objects P (key # rest) deleted s =
     (case sweep_key P key deleted s of (deleted', s') \<Rightarrow> sweep_objects P rest deleted' s')"

text \<open>The \<^verbatim>\<open>do ... while (cursor)\<close> loop of the sweep; \<open>None\<close> is a walk that never ends.\<close>

partial_function (option) sweep_pages ::
  "'w platform \<Rightarrow> string option \<Rightarrow> nat \<Rightarrow> 'w run \<Rightarrow> ((thrown + nat) \<times> 'w run) option" where
  "sweep_pages P cur deleted s =
     (case invoke (bucket_list P None cur) (\<lambda>r. R2List None cur) s of
        (Inl e, s1) \<Rightarrow> Some (Inl e, s1)
      | (Inr list, s1) \<Rightarrow>
          (case sweep_objects P (objects list) deleted s1 of
             (deleted', s2) \<Rightarrow>
               (case next_cursor list of
                  Some c \<Rightarrow> sweep_pages P (Some c) deleted' s2
                | None \<Rightarrow> Some (Inr deleted', s2))))"

declare sweep_pages.simps [code]

definition cleanCorruptedR2Keys ::
  "'w platform \<Rightarrow> 'w run \<Rightarrow> ((thrown + unit) \<times> 'w run) option" where
  "cleanCorruptedR2Keys P s =
     (case sweep_pages P None 0 s of
        None \<Rightarrow> None
      | Some (Inl e, s1) \<Rightarrow> Some (Inl e, s1)
      | Some (Inr deleted, s1) \<Rightarrow> Some (Inr (), s1))"

text \<open>The two probes for a config directory at the head of \<^verbatim>\<open>syncToR2\<close>: a listing
  that throws counts as no directory.\<close>

definition probe_dir :: "'w platform \<Rightarrow> string \<Rightarrow> 'w run \<Rightarrow> bool \<times> 'w run" where
  "probe_dir P dir s =
     (case listContainerFiles P dir [] s of
        (Inl e, s1) \<Rightarrow> (False, s1)
      | (Inr files, s1) \<Rightarrow> (length files > 0, s1))"

definition find_configDir :: "'w platform \<Rightarrow> 'w run \<Rightarrow> string option \<times> 'w run" where
  "find_configDir P s =
     (case probe_dir P ''/root/.openclaw'' s of
        (found, s1) \<Rightarrow>
          if found then (Some ''/root/.openclaw'', s1)
          else (case probe_dir P ''/root/.clawdbot'' s1 of
                  (found', s2) \<Rightarrow> (if found' then Some ''/root/.clawdbot'' else None, s2)))"

text \<open>\<^verbatim>\<open>err instanceof Error ? err.message : 'Unknown error'\<close>.\<close>

definition error_message :: "thrown \<Rightarrow> string" where
  "error_message err = (case err of Error msg \<Rightarrow> msg | NonError \<Rightarrow> ''Unknown error'')"

definition sync_error :: "thrown \<Rightarrow> SyncResult" where
  "sync_error err =
     \<lparr>success = False, lastSync = None, error = Some ''Sync error'',
      details = Some (error_message err)\<rparr>"

definition nothing_to_sync :: "string \<Rightarrow> SyncResult" where
  "nothing_to_sync why =
     \<lparr>success = False, lastSync = None, error = Some ''Nothing to sync'', details = Some why\<rparr>"

text \<open>\<^verbatim>\<open>totalFiles += n\<close> inside a \<^verbatim>\<open>try\<close> whose \<^verbatim>\<open>catch\<close> is empty.\<close>

definition add_if_resolved :: "nat \<Rightarrow> thrown + nat \<Rightarrow> nat" where
  "add_if_resolved totalFiles r = (case r of Inl e \<Rightarrow> totalFiles | Inr n \<Rightarrow> totalFiles + n)"

text \<open>The \<^verbatim>\<open>try\<close> block of \<^verbatim>\<open>syncToR2\<close> with its \<^verbatim>\<open>catch\<close>.\<close>

definition sync_trees :: "'w platform \<Rightarrow> string \<Rightarrow> 'w run \<Rightarrow> SyncResult \<times> 'w run" where
  "sync_trees P configDir s =
     (case syncDirectory P configDir ''openclaw'' [] s of
        (Inl err, s1) \<Rightarrow> (sync_error err, s1)
      | (Inr configFiles, s1) \<Rightarrow>
          (case syncDirectory P ''/root/clawd'' ''workspace'' [''skills''] s1 of
             (workspace, s2) \<Rightarrow>
               (case syncDirectory P ''/root/clawd/skills'' ''skills'' [] s2 of
                  (skills, s3) \<Rightarrow>
                    let totalFiles = add_if_resolved (add_if_resolved (0 + configFiles) workspace) skills in
                    if totalFiles > 0 then
                      (case invoke (Date_toISOString P) (\<lambda>r. DateISO r) s3 of
                         (now, s4) \<Rightarrow>
                           (case invoke (bucket_put P ''.last-sync'' now)
                                   (\<lambda>r. R2Put ''.last-sync'' now (resolved r)) s4 of
                              (Inl err, s5) \<Rightarrow> (sync_error err, s5)
                            | (Inr u, s5) \<Rightarrow>
                                (\<lparr>success = True, lastSync = Some now, error = None,
                                  details = Some (''Synced '' @ show_nat totalFiles
                                                  @ '' files to R2 (direct file transfer)'')\<rparr>, s5)))
                    else
                      (nothing_to_sync ''Config directory exists but contained no syncable files.'', s3))))"

text \<open>\<^verbatim>\<open>syncToR2\<close>. The sweep is called outside the \<^verbatim>\<open>try\<close>: what it throws rejects the
  whole call.\<close>

definition syncToR2 ::
  "'w platform \<Rightarrow> 'w run \<Rightarrow> ((thrown + SyncResult) \<times> 'w run) option" where
  "syncToR2 P s =
     (if \<not> has_bucket P then
        Some (Inr \<lparr>success = False, lastSync = None,
                   error = Some ''R2 bucket binding not configured'', details = None\<rparr>, s)
      else
        (case find_configDir P s of
           (None, s1) \<Rightarrow>
             Some (Inr (nothing_to_sync
               ''No config directory found in the container. Pair a device first to generate config.''), s1)
         | (Some configDir, s1) \<Rightarrow>
             (case cleanCorruptedR2Keys P s1 of
                None \<Rightarrow> None
              | Some (Inl e, s2) \<Rightarrow> Some (Inl e, s2)
              | Some (Inr u, s2) \<Rightarrow>
                  (case sync_trees P configDir s2 of (result, s3) \<Rightarrow> Some (Inr result, s3)))))"

section \<open>Notions used to state the properties\<close>

text \<open>Joining blocks with the record delimiter: the inverse of the split.\<close>

fun join_nlnl :: "string list \<Rightarrow> string" where
  "join_nlnl [] = []"
| "join_nlnl [b] = b"
| "join_nlnl (b # c # bs) = b @ [LF, LF] @ join_nlnl (c # bs)"

text \<open>The processes that the cleanup is after: not the gateway, and running or starting.\<close>

definition kill_target :: "process \<Rightarrow> bool" where
  "kill_target proc =
     (\<not> isGateway proc \<and> (status proc = ''running'' \<or> status proc = ''starting''))"

text \<open>
  What \<^verbatim>\<open>proc.kill()\<close> answers when it is called on each process of a list in turn,
  every call in the world that the call before it left: whether each call resolved, and
  the world after the last one.
\<close>

fun kill_each :: "'w platform \<Rightarrow> process list \<Rightarrow> 'w \<Rightarrow> bool list \<times> 'w" where
  "kill_each P [] w = ([], w)"
| "kill_each P (proc # rest) w =
     (case process_kill P proc w of
        (r, w1) \<Rightarrow> (case kill_each P rest w1 of (oks, w') \<Rightarrow> (resolved r # oks, w')))"

text \<open>
  The first balanced \<^verbatim>\<open>{...}\<close> span of a text, in the words of the specification: the
  leftmost opening brace whose nesting closes, up to the brace that closes it.
\<close>

fun take_balanced :: "string \<Rightarrow> nat \<Rightarrow> string option" where
  "take_balanced [] depth = None"
| "take_balanced (c # cs) depth =
     (if c = CHR ''{'' then map_option ((#) c) (take_balanced cs (Suc depth))
      else if c = CHR ''}'' then
        (if depth \<le> 1 then Some [c] else map_option ((#) c) (take_balanced cs (depth - 1)))
      else map_option ((#) c) (take_balanced cs depth))"

fun first_balanced_span :: "string \<Rightarrow> string option" where
  "first_balanced_span [] = None"
| "first_balanced_span (c # cs) =
     (if c = CHR ''{'' then
        (case take_balanced cs 1 of
           Some m \<Rightarrow> Some (c # m)
         | None \<Rightarrow> first_balanced_span cs)
      else first_balanced_span cs)"

text \<open>The JavaScript value that a boolean result is.\<close>

definition js_boolean :: "bool \<Rightarrow> json" where
  "js_boolean b = JBool b"

text \<open>
  A listing as the bucket serves it: \<open>page_of\<close> answers each cursor with a page or a
  failure. \<open>paginated_listing page_of n cur\<close> is the list of the pages from \<open>cur\<close> on,
  when the listing ends within \<open>n\<close> pages with a page that is not truncated, every call
  answers, and every truncated page carries a cursor that is not empty.
\<close>

fun paginated_listing ::
  "(string option \<Rightarrow> thrown + list_result) \<Rightarrow> nat \<Rightarrow> string option \<Rightarrow> list_result list option" where
  "paginated_listing page_of 0 cur = None"
| "paginated_listing page_of (Suc n) cur =
     (case page_of cur of
        Inl e \<Rightarrow> None
      | Inr page \<Rightarrow>
          if \<not> truncated page then Some [page]
          else (case cursor page of
                  None \<Rightarrow> None
                | Some c \<Rightarrow>
                    if c = [] then None
                    else map_option ((#) page) (paginated_listing page_of n (Some c))))"

text \<open>
  A key that the restore of a prefix goes on to fetch, spelled out: not a directory
  marker, none of the two substrings, none of the three corruption marks, and something
  left after the prefix.
\<close>

definition eligible :: "string \<Rightarrow> string \<Rightarrow> bool" where
  "eligible pfx key =
     (\<not> js_endsWith key ''/''
      \<and> \<not> js_includes key ''.jsonl'' \<and> \<not> js_includes key ''.bak''
      \<and> \<not> js_includes key [DQUOTE] \<and> \<not> js_includes key ''{''
      \<and> \<not> js_includes key [BACKSLASH, CHR ''n'']
      \<and> drop (length pfx) key \<noteq> [])"

text \<open>The sandbox path that a key is restored to.\<close>

definition restore_target :: "string \<Rightarrow> string \<Rightarrow> string \<Rightarrow> string" where
  "restore_target pfx containerDir key = containerDir @ ''/'' @ drop (length pfx) key"

text \<open>The bucket gets of a trace with their answers, and the file writes of a trace with
  their outcome.\<close>

fun fetched :: "event list \<Rightarrow> (string \<times> string option) list" where
  "fetched [] = []"
| "fetched (R2Get key body # evs) = (key, body) # fetched evs"
| "fetched (ev # evs) = fetched evs"

fun written :: "event list \<Rightarrow> (string \<times> string \<times> bool) list" where
  "written [] = []"
| "written (WriteFile path content ok # evs) = (path, content, ok) # written evs"
| "written (ev # evs) = written evs"

text \<open>
  What the events of a restore over the listed keys look like: the gets are the eligible
  keys in order, and the writes are the gets that answered with a body, each on its
  target path.
\<close>

definition restore_trace :: "string \<Rightarrow> string \<Rightarrow> string list \<Rightarrow> event list \<Rightarrow> bool" where
  "restore_trace pfx containerDir keys evs =
     (map fst (fetched evs) = filter (eligible pfx) keys
      \<and> map (\<lambda>(path, content, ok). (path, content)) (written evs) =
          List.map_filter
            (\<lambda>(key, body). map_option (\<lambda>content. (restore_target pfx containerDir key, content)) body)
            (fetched evs))"

text \<open>The number of file writes of a trace that resolved.\<close>

definition write_successes :: "event list \<Rightarrow> nat" where
  "write_successes evs = length (filter (\<lambda>(path, content, ok). ok) (written evs))"

text \<open>The bucket puts of a trace with their outcome, and the number of them that resolved.\<close>

fun uploads :: "event list \<Rightarrow> (string \<times> string \<times> bool) list" where
  "uploads [] = []"
| "uploads (R2Put key body ok # evs) = (key, body, ok) # uploads evs"
| "uploads (ev # evs) = uploads evs"

definition upload_successes :: "event list \<Rightarrow> nat" where
  "upload_successes evs = length (filter (\<lambda>(key, body, ok). ok) (uploads evs))"

text \<open>Every put of the trace carries a non-empty body under a key of the tree's prefix.\<close>

definition tree_uploads :: "string \<Rightarrow> event list \<Rightarrow> bool" where
  "tree_uploads r2Prefix evs =
     list_all (\<lambda>(key, body, ok). body \<noteq> [] \<and> js_startsWith key (r2Prefix @ ''/'')) (uploads evs)"

text \<open>The bucket deletes and the list calls of a trace.\<close>

fun deletions :: "event list \<Rightarrow> (string \<times> bool) list" where
  "deletions [] = []"
| "deletions (R2Delete key ok # evs) = (key, ok) # deletions evs"
| "deletions (ev # evs) = deletions evs"

fun list_calls :: "event list \<Rightarrow> (string option \<times> string option) list" where
  "list_calls [] = []"
| "list_calls (R2List pfx cur # evs) = (pfx, cur) # list_calls evs"
| "list_calls (ev # evs) = list_calls evs"

text \<open>
  What the events of a sweep over the listed keys look like: the deletes are the keys
  that the test picks, in order, and there is no event but deletes and list calls.
\<close>

definition sweep_trace :: "string list \<Rightarrow> event list \<Rightarrow> bool" where
  "sweep_trace keys evs =
     (map fst (deletions evs) = filter corrupt_key keys
      \<and> length evs = length (deletions evs) + length (list_calls evs))"

text \<open>
  The puts of a trace apart from the marker, the puts of the marker, and the number of
  files uploaded: the puts apart from the marker that resolved.
\<close>

definition file_puts :: "event list \<Rightarrow> (string \<times> string \<times> bool) list" where
  "file_puts evs = filter (\<lambda>(key, body, ok). key \<noteq> ''.last-sync'') (uploads evs)"

definition marker_puts :: "event list \<Rightarrow> (string \<times> string \<times> bool) list" where
  "marker_puts evs = filter (\<lambda>(key, body, ok). key = ''.last-sync'') (uploads evs)"

definition files_uploaded :: "event list \<Rightarrow> nat" where
  "files_uploaded evs = length (filter (\<lambda>(key, body, ok). ok) (file_puts evs))"

section \<open>Test doubles\<close>

text \<open>
  Concrete platforms on which the functions are run, in the manner of the mocks of
  \<^verbatim>\<open>sync.test.ts\<close>: a stream is the frames \<^verbatim>\<open>data: {JSON}\<close> followed by a blank line, and the
  stand-in for \<^verbatim>\<open>JSON.parse\<close> decodes the handful of texts that these runs meet (as
  \<^verbatim>\<open>JSON.parse\<close> does) and rejects every other text.
\<close>

definition sse_frame :: "string \<Rightarrow> string" where
  "sse_frame text = ''data: '' @ text @ [LF, LF]"

definition listing_text :: string where
  \<open>listing_text =
     ''{"type":"stdout","data":"/root/clawd/IDENTITY.md'' @ [BACKSLASH, CHR ''n'']
       @ ''/root/clawd/incomplete.md'' @ [BACKSLASH, CHR ''n''] @ ''relative.md"}''\<close>

definition mock_JSON_table :: "(string \<times> json) list" where
  \<open>mock_JSON_table =
     [(''{"type":"stdout","data":"/root/.openclaw/openclaw.json"}'',
        JObj [(''type'', JStr ''stdout''), (''data'', JStr ''/root/.openclaw/openclaw.json'')]),
      (''{"type":"stdout","data":""}'',
        JObj [(''type'', JStr ''stdout''), (''data'', JStr [])]),
      (listing_text,
        JObj [(''type'', JStr ''stdout''),
              (''data'', JStr (''/root/clawd/IDENTITY.md'' @ [LF] @ ''/root/clawd/incomplete.md''
                               @ [LF] @ ''relative.md''))]),
      (''{"type":"metadata","mimeType":"text/plain","size":0,"isBinary":false}'',
        JObj [(''type'', JStr ''metadata''), (''mimeType'', JStr ''text/plain''),
              (''size'', JNum 0), (''isBinary'', JBool False)]),
      (''{"type":"chunk","data":"# Identity"}'',
        JObj [(''type'', JStr ''chunk''), (''data'', JStr ''# Identity'')]),
      (''{"type":"complete","bytesRead":0}'',
        JObj [(''type'', JStr ''complete''), (''bytesRead'', JNum 0)]),
      (''{}'', JObj []),
      (''1'', JNum 1)]\<close>

definition mock_platform :: "unit platform" where
  \<open>mock_platform =
     \<lparr>JSON_parse = map_of mock_JSON_table,
      has_bucket = True,
      sandbox_execStream = (\<lambda>cmd w. (Inr [sse_frame ''{"type":"stdout","data":""}''], w)),
      sandbox_readFileStream = (\<lambda>path w. (Inl (Error ''File not found''), w)),
      sandbox_readFileStream_race = (\<lambda>path timeoutMs w. (TimerFirst, w)),
      sandbox_writeFile = (\<lambda>path content w. (Inr (), w)),
      sandbox_mkdir = (\<lambda>path w. (Inr (), w)),
      sandbox_startProcess = (\<lambda>cmd w. (Inr (), w)),
      sandbox_listProcesses = (\<lambda>w. (Inr [], w)),
      process_kill = (\<lambda>proc w. (Inr (), w)),
      bucket_get = (\<lambda>key w. (Inr None, w)),
      bucket_put = (\<lambda>key body w. (Inr (), w)),
      bucket_delete = (\<lambda>key w. (Inr (), w)),
      bucket_list = (\<lambda>pfx cur w. (Inr \<lparr>objects = [], truncated = False, cursor = None\<rparr>, w)),
      Date_now = (\<lambda>w. (1730000000000, w)),
      Date_toISOString = (\<lambda>w. (''2026-01-01T00:00:00.000Z'', w)),
      ensureMoltbotGateway = (\<lambda>w. (Inr (), w))\<rparr>\<close>

definition mock_process :: "string \<Rightarrow> string \<Rightarrow> string \<Rightarrow> process" where
  "mock_process i c st = \<lparr>proc_id = i, command = c, status = st\<rparr>"

definition mock_processes :: "process list" where
  "mock_processes =
     [mock_process ''p1'' ''/usr/local/bin/start-openclaw.sh'' ''running'',
      mock_process ''p2'' ''sh -c timeout 12 openclaw devices list'' ''running'',
      mock_process ''p3'' ''sh -c timeout 12 openclaw devices list'' ''completed'',
      mock_process ''p4'' ''sleep 100'' ''starting'',
      mock_process ''p5'' ''openclaw gateway --port 18789'' ''starting'',
      mock_process ''p6'' ''ls'' ''failed'']"

text \<open>
  A sandbox whose world is the list of the ids of its live processes: a kill takes the
  process out of it, except for \<^verbatim>\<open>p4\<close>, whose kill throws and leaves it alive.
\<close>

definition crowded_platform :: "string list platform" where
  \<open>crowded_platform =
     \<lparr>JSON_parse = map_of mock_JSON_table,
      has_bucket = True,
      sandbox_execStream = (\<lambda>cmd w. (Inr [sse_frame ''{"type":"stdout","data":""}''], w)),
      sandbox_readFileStream = (\<lambda>path w. (Inl (Error ''File not found''), w)),
      sandbox_readFileStream_race = (\<lambda>path timeoutMs w. (TimerFirst, w)),
      sandbox_writeFile = (\<lambda>path content w. (Inr (), w)),
      sandbox_mkdir = (\<lambda>path w. (Inr (), w)),
      sandbox_startProcess = (\<lambda>cmd w. (Inr (), w)),
      sandbox_listProcesses = (\<lambda>w. (Inr mock_processes, w)),
      process_kill = (\<lambda>proc w. if proc_id proc = ''p4'' then (Inl (Error ''gone''), w)
                                 else (Inr (), removeAll (proc_id proc) w)),
      bucket_get = (\<lambda>key w. (Inr None, w)),
      bucket_put = (\<lambda>key body w. (Inr (), w)),
      bucket_delete = (\<lambda>key w. (Inr (), w)),
      bucket_list = (\<lambda>pfx cur w. (Inr \<lparr>objects = [], truncated = False, cursor = None\<rparr>, w)),
      Date_now = (\<lambda>w. (1730000000000, w)),
      Date_toISOString = (\<lambda>w. (''2026-01-01T00:00:00.000Z'', w)),
      ensureMoltbotGateway = (\<lambda>w. (Inr (), w))\<rparr>\<close>

definition live_ids :: "string list" where
  "live_ids = [''p1'', ''p2'', ''p3'', ''p4'', ''p5'', ''p6'']"

definition listing_platform :: "unit platform" where
  "listing_platform =
     mock_platform\<lparr>sandbox_execStream := (\<lambda>cmd w. (Inr [sse_frame listing_text], w))\<rparr>"

definition done_platform :: "unit platform" where
  "done_platform =
     mock_platform\<lparr>sandbox_readFileStream_race :=
        (\<lambda>path timeoutMs w. (Chunks [''  device list'', [LF] @ ''__EXEC_DONE__'' @ [LF]], w))\<rparr>"

definition start_fails_platform :: "unit platform" where
  "start_fails_platform =
     mock_platform\<lparr>sandbox_startProcess := (\<lambda>cmd w. (Inl (Error ''spawn failed''), w))\<rparr>"

definition partial_output_platform :: "unit platform" where
  "partial_output_platform =
     mock_platform\<lparr>sandbox_readFileStream_race :=
        (\<lambda>path timeoutMs w. (Chunks [''partial output''], w))\<rparr>"

definition restore_page_of :: "string option \<Rightarrow> thrown + list_result" where
  \<open>restore_page_of cur =
     (if cur = None then
        Inr \<lparr>objects = [''workspace/IDENTITY.md'', ''workspace/sessions/chat.jsonl'',
                         ''workspace/openclaw.json.bak''],
             truncated = True, cursor = Some ''page2''\<rparr>
      else if cur = Some ''page2'' then
        Inr \<lparr>objects = [''workspace/data: {"type"'', ''workspace/memory/notes.md''],
             truncated = False, cursor = None\<rparr>
      else Inl (Error ''bad cursor''))\<close>

definition restore_platform :: "unit platform" where
  "restore_platform =
     mock_platform\<lparr>bucket_list := (\<lambda>pfx cur w. (restore_page_of cur, w)),
                    bucket_get := (\<lambda>key w. (Inr (Some (''body of '' @ key)), w))\<rparr>"

definition bak_page_of :: "string option \<Rightarrow> thrown + list_result" where
  "bak_page_of cur = Inr \<lparr>objects = [''workspace/notes.bak.md''], truncated = False, cursor = None\<rparr>"

definition bak_platform :: "unit platform" where
  "bak_platform =
     mock_platform\<lparr>bucket_list := (\<lambda>pfx cur w. (bak_page_of cur, w)),
                    bucket_get := (\<lambda>key w. (Inr (Some (''body of '' @ key)), w))\<rparr>"

definition sweep_page_of :: "string option \<Rightarrow> thrown + list_result" where
  \<open>sweep_page_of cur =
     (if cur = None then
        Inr \<lparr>objects = [''openclaw/openclaw.json'', ''data: {"type":"stdout"'',
                         ''workspace/a}b.md''],
             truncated = True, cursor = Some ''page2''\<rparr>
      else if cur = Some ''page2'' then
        Inr \<lparr>objects = [''workspace/x'' @ [BACKSLASH, CHR ''n''] @ ''y'', ''workspace/say "hi".md'',
                         ''skills/ok.md''],
             truncated = False, cursor = None\<rparr>
      else Inl (Error ''bad cursor''))\<close>

definition sweep_platform :: "unit platform" where
  "sweep_platform =
     mock_platform\<lparr>bucket_list := (\<lambda>pfx cur w. (sweep_page_of cur, w)),
                    bucket_delete := (\<lambda>key w. (if js_includes key [BACKSLASH]
                                                  then Inl (Error ''delete failed'') else Inr (), w))\<rparr>"

definition brace_page_of :: "string option \<Rightarrow> thrown + list_result" where
  "brace_page_of cur = Inr \<lparr>objects = [''workspace/a}b.md''], truncated = False, cursor = None\<rparr>"

definition brace_platform :: "unit platform" where
  "brace_platform = mock_platform\<lparr>bucket_list := (\<lambda>pfx cur w. (brace_page_of cur, w))\<rparr>"

definition empty_file_platform :: "unit platform" where
  \<open>empty_file_platform =
     mock_platform\<lparr>
       sandbox_execStream :=
         (\<lambda>cmd w. (Inr [sse_frame ''{"type":"stdout","data":"/root/.openclaw/openclaw.json"}''], w)),
       sandbox_readFileStream :=
         (\<lambda>path w. (Inr [sse_frame ''{"type":"metadata","mimeType":"text/plain","size":0,"isBinary":false}'',
                          sse_frame ''{"type":"complete","bytesRead":0}''], w))\<rparr>\<close>

definition sync_platform :: "unit platform" where
  \<open>sync_platform =
     mock_platform\<lparr>
       sandbox_execStream :=
         (\<lambda>cmd w. if cmd = find_command ''/root/.openclaw'' []
                   then (Inr [sse_frame ''{"type":"stdout","data":"/root/.openclaw/openclaw.json"}''], w)
                   else (Inr [sse_frame ''{"type":"stdout","data":""}''], w)),
       sandbox_readFileStream :=
         (\<lambda>path w. (Inr [sse_frame ''{"type":"metadata","mimeType":"text/plain","size":0,"isBinary":false}'',
                          sse_frame ''{"type":"chunk","data":"# Identity"}'',
                          sse_frame ''{"type":"complete","bytesRead":0}''], w))\<rparr>\<close>

definition marker_fails_platform :: "unit platform" where
  "marker_fails_platform =
     sync_platform\<lparr>bucket_put := (\<lambda>key body w. (if key = ''.last-sync''
                                                   then Inl (Error ''put failed'') else Inr (), w))\<rparr>"

section \<open>Properties of the string operations\<close>

lemma js_includes_iff: "js_includes s pat \<longleftrightarrow> (\<exists>pre post. s = pre @ pat @ post)"
proof (induction s)
  case Nil
  then show ?case by auto
next
  case (Cons c cs)
  show ?case
  proof
    assume "js_includes (c # cs) pat"
    then consider "prefix pat (c # cs)" | "js_includes cs pat" by auto
    then show "\<exists>pre post. c # cs = pre @ pat @ post"
    proof cases
      case 1
      then obtain post where "c # cs = pat @ post" by (auto simp: prefix_def)
      then have "c # cs = [] @ pat @ post" by simp
      then show ?thesis by blast
    next
      case 2
      with Cons.IH obtain pre post where "cs = pre @ pat @ post" by blast
      then have "c # cs = (c # pre) @ pat @ post" by simp
      then show ?thesis by blast
    qed
  next
    assume "\<exists>pre post. c # cs = pre @ pat @ post"
    then obtain pre post where eq: "c # cs = pre @ pat @ post" by blast
    show "js_includes (c # cs) pat"
    proof (cases pre)
      case Nil
      with eq have "prefix pat (c # cs)" by (simp add: prefix_def)
      then show ?thesis by simp
    next
      case (Cons a pre')
      with eq have "cs = pre' @ pat @ post" by simp
      with Cons.IH have "js_includes cs pat" by blast
      then show ?thesis by simp
    qed
  qed
qed

lemma split_nlnl_nonempty: "split_nlnl raw \<noteq> []"
  by (induction raw rule: split_nlnl.induct)
     (auto split: list.splits, (case_tac "split_nlnl (b # cs)"; simp)+)

lemma join_cons_first: "bs \<noteq> [] \<Longrightarrow> join_nlnl (cons_first a bs) = a # join_nlnl bs"
  by (cases bs rule: join_nlnl.cases) auto

lemma join_split_nlnl: "join_nlnl (split_nlnl raw) = raw"
proof (induction raw rule: split_nlnl.induct)
  case (1 a b cs)
  show ?case
  proof (cases "a = LF \<and> b = LF")
    case True
    with 1 show ?thesis using split_nlnl_nonempty[of cs]
      by (cases "split_nlnl cs") auto
  next
    case False
    with 1 show ?thesis using split_nlnl_nonempty[of "b # cs"]
      by (auto simp: join_cons_first)
  qed
qed simp_all

lemma parse_blocks_map_filter:
  "parse_blocks J blocks =
     List.map_filter
       (\<lambda>block. J (if js_startsWith (js_trim block) ''data: ''
                     then drop 6 (js_trim block) else js_trim block))
       (filter (\<lambda>block. js_trim block \<noteq> []) blocks)"
  by (induction blocks) (auto simp: Let_def split: option.splits)

lemma hd_block_split_nlnl:
  "b \<noteq> LF \<Longrightarrow> \<exists>blk rest. split_nlnl (b # cs) = (b # blk) # rest"
proof (cases cs)
  case Nil then show ?thesis by simp
next
  case (Cons c cs')
  assume "b \<noteq> LF"
  then show ?thesis using Cons split_nlnl_nonempty[of "c # cs'"]
    by (cases "split_nlnl (c # cs')") auto
qed

lemma blocks_hold_no_delimiter:
  "blk \<in> set (split_nlnl raw) \<Longrightarrow> \<not> js_includes blk [LF, LF]"
proof (induction raw arbitrary: blk rule: split_nlnl.induct)
  case (1 a b cs)
  show ?case
  proof (cases "a = LF \<and> b = LF")
    case True
    with 1 show ?thesis by auto
  next
    case False
    obtain b0 rest where sp: "split_nlnl (b # cs) = b0 # rest"
      using split_nlnl_nonempty[of "b # cs"] by (cases "split_nlnl (b # cs)") auto
    have rest_ok: "\<And>x. x \<in> set (b0 # rest) \<Longrightarrow> \<not> js_includes x [LF, LF]"
      using 1(2)[OF False] sp by simp
    have first: "\<not> js_includes (a # b0) [LF, LF]"
    proof (cases "a = LF")
      case True
      with False have "b \<noteq> LF" by simp
      from hd_block_split_nlnl[OF this, of cs] sp obtain blk' where "b0 = b # blk'" by auto
      with \<open>b \<noteq> LF\<close> rest_ok[of b0] show ?thesis by simp
    next
      case False
      with rest_ok[of b0] show ?thesis by simp
    qed
    from 1(3) False sp have "blk = a # b0 \<or> blk \<in> set rest" by simp
    with first rest_ok show ?thesis by auto
  qed
qed auto

section \<open>Event stream parser\<close>

text \<open>
  Claim C7. \<^verbatim>\<open>parseSSEEvents\<close> is a total function of the raw text (a block that
  \<^verbatim>\<open>JSON.parse\<close> rejects is dropped, nothing is thrown). The blocks are the pieces between
  two consecutive newlines: joining them with the delimiter gives the text back and no
  block holds the delimiter. The result is, in input order, the decoded value of every
  block that is not empty once trimmed and whose text, trimmed and with a leading
  \<^verbatim>\<open>data: \<close> removed, decodes.
\<close>

theorem parseSSEEvents_decodes_blocks_in_order:
  "join_nlnl (split_nlnl raw) = raw
   \<and> (\<forall>block \<in> set (split_nlnl raw). \<not> js_includes block [LF, LF])
   \<and> parseSSEEvents parse raw =
       List.map_filter
         (\<lambda>block. parse (if js_startsWith (js_trim block) ''data: ''
                              then drop 6 (js_trim block) else js_trim block))
         (filter (\<lambda>block. js_trim block \<noteq> []) (split_nlnl raw))"
  using join_split_nlnl blocks_hold_no_delimiter parse_blocks_map_filter
  by (auto simp: parseSSEEvents_def)

theorem parseSSEEvents_witness:
  \<open>parseSSEEvents (map_of mock_JSON_table)
      (sse_frame ''{"type":"chunk","data":"# Identity"}'' @ [LF] @ sse_frame ''{"type":'' @ ''1'')
    = [JObj [(''type'', JStr ''chunk''), (''data'', JStr ''# Identity'')], JNum 1]\<close>
  using parseSSEEvents_decodes_blocks_in_order
          [of \<open>sse_frame ''{"type":"chunk","data":"# Identity"}'' @ [LF] @ sse_frame ''{"type":'' @ ''1''\<close>
              "map_of mock_JSON_table"]
  by (simp add: sse_frame_def mock_JSON_table_def listing_text_def parseSSEEvents_def
        js_trim_def js_whitespace_def js_startsWith_def)

section \<open>Bounded command runner\<close>

text \<open>
  Claim C5, as the code has it. A call of \<^verbatim>\<open>execCommand\<close> reads the clock, starts the
  wrapped command and then goes one of three ways. If starting the process rejects, the
  rejection reaches the caller: this is the only way the call throws. If the first read,
  after a sleep of \<open>min (timeoutMs - 2000) 10000\<close> ms, delivers a content that holds the
  sentinel, the result is that content with the first occurrence of the sentinel removed,
  trimmed. Otherwise it sleeps 3000 ms and reads once more, and the result is the second
  content if that read delivered one (with or without the sentinel), else the first
  content if that read delivered one, each with the first sentinel removed and trimmed;
  when neither read delivered a content it is the empty string.
\<close>

theorem execCommand_protocol:
  assumes run: "execCommand P cmd timeoutMs s = (r, s')"
  shows "\<exists>tag.
      (\<exists>e. r = Inl e
           \<and> snd s' = snd s @ [DateNow tag, StartProcess (exec_shellCmd cmd tag) False])
    \<or> (\<exists>c. js_includes c DONE_MARKER
           \<and> r = Inr (js_trim (replace_first_empty c DONE_MARKER))
           \<and> snd s' = snd s @ [DateNow tag, StartProcess (exec_shellCmd cmd tag) True,
                                Sleep (min (timeoutMs - 2000) 10000),
                                ReadFileRaced (exec_outFile tag) 5000 (Some c)])
    \<or> (\<exists>c1 c2. \<not> has_marker c1
           \<and> r = Inr (case c2 of
                        Some retry \<Rightarrow> js_trim (replace_first_empty retry DONE_MARKER)
                      | None \<Rightarrow> (case c1 of
                                   Some c \<Rightarrow> js_trim (replace_first_empty c DONE_MARKER)
                                 | None \<Rightarrow> []))
           \<and> snd s' = snd s @ [DateNow tag, StartProcess (exec_shellCmd cmd tag) True,
                                Sleep (min (timeoutMs - 2000) 10000),
                                ReadFileRaced (exec_outFile tag) 5000 c1,
                                Sleep 3000,
                                ReadFileRaced (exec_outFile tag) 5000 c2])"
proof -
  obtain tag w0 where clock: "Date_now P (fst s) = (tag, w0)"
    by (cases "Date_now P (fst s)")
  let ?sh = "exec_shellCmd cmd tag"
  let ?out = "exec_outFile tag"
  let ?wait = "min (timeoutMs - 2000) 10000"
  obtain st w1 where start: "sandbox_startProcess P ?sh w0 = (st, w1)"
    by (cases "sandbox_startProcess P ?sh w0")
  show ?thesis
  proof (cases st)
    case (Inl e)
    with run clock start have "r = Inl e \<and> snd s' = snd s @ [DateNow tag, StartProcess ?sh False]"
      by (auto simp: execCommand_def invoke_def Let_def resolved_def)
    then show ?thesis by blast
  next
    case (Inr u)
    obtain o1 w2 where read1: "sandbox_readFileStream_race P ?out 5000 w1 = (o1, w2)"
      by (cases "sandbox_readFileStream_race P ?out 5000 w1")
    let ?c1 = "race_content o1"
    let ?tr1 = "snd s @ [DateNow tag, StartProcess ?sh True, Sleep ?wait, ReadFileRaced ?out 5000 ?c1]"
    have rf1: "readFile P ?out 5000 (sleep ?wait (w1, snd s @ [DateNow tag, StartProcess ?sh True]))
                 = (?c1, (w2, ?tr1))"
      using read1 by (simp add: readFile_def invoke_def sleep_def)
    show ?thesis
    proof (cases "has_marker ?c1")
      case True
      then obtain c where c: "?c1 = Some c" "js_includes c DONE_MARKER"
        by (auto simp: has_marker_def split: option.splits)
      from run clock start Inr rf1 True c
      have "r = Inr (js_trim (replace_first_empty c DONE_MARKER)) \<and> snd s' = ?tr1"
        by (auto simp: execCommand_def invoke_def Let_def resolved_def strip_marker_def)
      with c show ?thesis by auto
    next
      case False
      obtain o2 w3 where read2: "sandbox_readFileStream_race P ?out 5000 w2 = (o2, w3)"
        by (cases "sandbox_readFileStream_race P ?out 5000 w2")
      let ?c2 = "race_content o2"
      let ?tr2 = "?tr1 @ [Sleep 3000, ReadFileRaced ?out 5000 ?c2]"
      have rf2: "readFile P ?out 5000 (sleep 3000 (w2, ?tr1)) = (?c2, (w3, ?tr2))"
        using read2 by (simp add: readFile_def invoke_def sleep_def)
      from run clock start Inr rf1 rf2 False
      have "r = Inr (case ?c2 of
                        Some retry \<Rightarrow> js_trim (replace_first_empty retry DONE_MARKER)
                      | None \<Rightarrow> (case ?c1 of
                                   Some c \<Rightarrow> js_trim (replace_first_empty c DONE_MARKER)
                                 | None \<Rightarrow> []))
            \<and> snd s' = ?tr2"
        by (auto simp: execCommand_def invoke_def Let_def resolved_def strip_marker_def
                 split: option.splits)
      with False show ?thesis by auto
    qed
  qed
qed

theorem execCommand_witness:
  "execCommand done_platform ''openclaw devices list'' 15000 ((), [])
     = (Inr ''device list'',
        ((), [DateNow 1730000000000,
              StartProcess (exec_shellCmd ''openclaw devices list'' 1730000000000) True,
              Sleep 10000,
              ReadFileRaced (exec_outFile 1730000000000) 5000
                (Some (''  device list'' @ [LF] @ ''__EXEC_DONE__'' @ [LF]))]))"
  using execCommand_protocol
          [of done_platform "''openclaw devices list''" 15000 "((), [])"
              "fst (execCommand done_platform ''openclaw devices list'' 15000 ((), []))"
              "snd (execCommand done_platform ''openclaw devices list'' 15000 ((), []))"]
  by (simp add: done_platform_def mock_platform_def execCommand_def invoke_def readFile_def
        sleep_def race_content_def has_marker_def DONE_MARKER_def strip_marker_def
        js_trim_def js_whitespace_def resolved_def)

theorem execCommand_counterexample:
  "execCommand start_fails_platform ''openclaw devices list'' 15000 ((), [])
     = (Inl (Error ''spawn failed''),
        ((), [DateNow 1730000000000,
              StartProcess (exec_shellCmd ''openclaw devices list'' 1730000000000) False]))
   \<and> execCommand partial_output_platform ''openclaw devices list'' 15000 ((), [])
     = (Inr ''partial output'',
        ((), [DateNow 1730000000000,
              StartProcess (exec_shellCmd ''openclaw devices list'' 1730000000000) True,
              Sleep 10000,
              ReadFileRaced (exec_outFile 1730000000000) 5000 (Some ''partial output''),
              Sleep 3000,
              ReadFileRaced (exec_outFile 1730000000000) 5000 (Some ''partial output'')]))
   \<and> \<not> js_includes ''partial output'' DONE_MARKER"
  by (simp add: start_fails_platform_def partial_output_platform_def mock_platform_def
        execCommand_def invoke_def readFile_def Let_def
        sleep_def race_content_def has_marker_def DONE_MARKER_def strip_marker_def
        js_trim_def js_whitespace_def resolved_def)

section \<open>Orphan cleanup\<close>

lemma cleanup_processes_trace:
  "kill_each P (filter kill_target procs) (fst s) = (oks, w') \<Longrightarrow>
   cleanup_processes P procs killed s =
     (killed + length (filter id oks),
      (w', snd s @ map2 Kill (filter kill_target procs) oks))"
proof (induction procs arbitrary: killed s oks w')
  case Nil
  then show ?case by (simp add: prod_eq_iff)
next
  case (Cons proc rest)
  show ?case
  proof (cases "kill_target proc")
    case False
    then have step: "cleanup_process P proc killed s = (killed, s)"
      by (auto simp: cleanup_process_def kill_target_def)
    from Cons.prems False have "kill_each P (filter kill_target rest) (fst s) = (oks, w')"
      by simp
    from Cons.IH[OF this, of killed] False step show ?thesis by simp
  next
    case True
    obtain r w1 where call: "process_kill P proc (fst s) = (r, w1)"
      by (cases "process_kill P proc (fst s)")
    obtain oks1 w2 where rest: "kill_each P (filter kill_target rest) w1 = (oks1, w2)"
      by (cases "kill_each P (filter kill_target rest) w1")
    from Cons.prems True call rest have oks: "oks = resolved r # oks1" and w': "w' = w2"
      by simp_all
    let ?s1 = "(w1, snd s @ [Kill proc (resolved r)])"
    let ?k1 = "if resolved r then killed + 1 else killed"
    have step: "cleanup_process P proc killed s = (?k1, ?s1)"
      using True call
      by (cases r) (auto simp: cleanup_process_def kill_target_def invoke_def resolved_def)
    from rest have "kill_each P (filter kill_target rest) (fst ?s1) = (oks1, w2)" by simp
    from Cons.IH[OF this, of ?k1]
    have "cleanup_processes P rest ?k1 ?s1 =
            (?k1 + length (filter id oks1),
             (w2, snd ?s1 @ map2 Kill (filter kill_target rest) oks1))" .
    then show ?thesis using True step oks w' by (simp add: id_def)
  qed
qed

lemma kill_each_length: "kill_each P procs w = (oks, w') \<Longrightarrow> length oks = length procs"
  by (induction procs arbitrary: w oks w') (auto split: prod.splits)

text \<open>
  Claim C8. When the process listing has at most 5 entries, \<^verbatim>\<open>cleanupOrphanedProcesses\<close>
  returns 0 and calls nothing but the listing, and the world is the one the listing left.
  When it has more than 5, it calls kill on exactly the processes that are not the gateway
  and are running or starting, in listing order and on nothing else, each kill in the
  world that the kill before it left (the first in the world that the listing left); a
  kill that throws is swallowed; the result is the number of those kills that resolved,
  and the world at the end is the world that the last kill left. Here \<open>oks\<close> and \<open>w'\<close> are
  what the kills answered: which of them resolved, and the world after the last.
\<close>

theorem cleanupOrphanedProcesses_kills_orphans:
  assumes listing: "sandbox_listProcesses P (fst s) = (Inr processes, w1)"
      and kills: "kill_each P (filter kill_target processes) w1 = (oks, w')"
  shows "(length processes \<le> 5 \<longrightarrow>
            cleanupOrphanedProcesses P s = (0, (w1, snd s @ [ListProcesses])))
       \<and> (length processes > 5 \<longrightarrow>
            cleanupOrphanedProcesses P s =
              (length (filter id oks),
               (w', snd s @ ListProcesses # map2 Kill (filter kill_target processes) oks)))
       \<and> length oks = length (filter kill_target processes)"
proof (intro conjI impI)
  assume "length processes \<le> 5"
  then show "cleanupOrphanedProcesses P s = (0, (w1, snd s @ [ListProcesses]))"
    using listing by (simp add: cleanupOrphanedProcesses_def invoke_def)
next
  assume big: "length processes > 5"
  let ?s1 = "(w1, snd s @ [ListProcesses])"
  from kills have "kill_each P (filter kill_target processes) (fst ?s1) = (oks, w')" by simp
  from cleanup_processes_trace[OF this, of 0]
  have eq: "cleanup_processes P processes 0 ?s1 =
           (0 + length (filter id oks),
            (w', snd ?s1 @ map2 Kill (filter kill_target processes) oks))" .
  have "cleanupOrphanedProcesses P s = cleanup_processes P processes 0 ?s1"
    using listing big by (simp add: cleanupOrphanedProcesses_def invoke_def)
  with eq show "cleanupOrphanedProcesses P s =
      (length (filter id oks),
       (w', snd s @ ListProcesses # map2 Kill (filter kill_target processes) oks))" by simp
next
  from kill_each_length[OF kills]
  show "length oks = length (filter kill_target processes)" .
qed

theorem cleanupOrphanedProcesses_witness:
  "sandbox_listProcesses crowded_platform (fst (live_ids, [])) = (Inr mock_processes, live_ids)
   \<and> kill_each crowded_platform (filter kill_target mock_processes) live_ids
        = ([True, False], [''p1'', ''p3'', ''p4'', ''p5'', ''p6''])
   \<and> length mock_processes > 5
   \<and> cleanupOrphanedProcesses crowded_platform (live_ids, [])
        = (1, ([''p1'', ''p3'', ''p4'', ''p5'', ''p6''],
               [ListProcesses,
                Kill (mock_process ''p2'' ''sh -c timeout 12 openclaw devices list'' ''running'') True,
                Kill (mock_process ''p4'' ''sleep 100'' ''starting'') False]))"
  using cleanupOrphanedProcesses_kills_orphans[of crowded_platform "(live_ids, [])" mock_processes
          live_ids "[True, False]" "[''p1'', ''p3'', ''p4'', ''p5'', ''p6'']"]
  by (simp add: crowded_platform_def live_ids_def mock_processes_def mock_process_def
        kill_target_def isGateway_def resolved_def)

section \<open>Device listing\<close>

lemma regex_brace_span_Some:
  assumes "regex_brace_span stdout = Some m"
  shows "\<exists>pre post. stdout = pre @ m @ post \<and> CHR ''{'' \<notin> set pre \<and> CHR ''}'' \<notin> set post
           \<and> hd m = CHR ''{'' \<and> last m = CHR ''}''"
proof -
  define rest where "rest = dropWhile (\<lambda>c. c \<noteq> CHR ''{'') stdout"
  define pre where "pre = takeWhile (\<lambda>c. c \<noteq> CHR ''{'') stdout"
  define post where "post = rev (takeWhile (\<lambda>c. c \<noteq> CHR ''}'') (rev rest))"
  from assms have closing: "CHR ''}'' \<in> set rest"
    and m: "m = rev (dropWhile (\<lambda>c. c \<noteq> CHR ''}'') (rev rest))"
    by (auto simp: regex_brace_span_def rest_def Let_def split: if_splits)
  have s: "stdout = pre @ rest" by (simp add: pre_def rest_def)
  have "rev (takeWhile (\<lambda>c. c \<noteq> CHR ''}'') (rev rest) @ dropWhile (\<lambda>c. c \<noteq> CHR ''}'') (rev rest)) = rest"
    by (simp only: takeWhile_dropWhile_id rev_rev_ident)
  then have "rev (dropWhile (\<lambda>c. c \<noteq> CHR ''}'') (rev rest)) @ rev (takeWhile (\<lambda>c. c \<noteq> CHR ''}'') (rev rest)) = rest"
    by (simp only: rev_append)
  then have r: "rest = m @ post" by (simp only: m post_def)
  have nopre: "CHR ''{'' \<notin> set pre"
    unfolding pre_def by (auto dest: set_takeWhileD)
  have nopost: "CHR ''}'' \<notin> set post"
    unfolding post_def by (auto dest: set_takeWhileD)
  from closing have "rest \<noteq> []" by auto
  then have hdrest: "hd rest = CHR ''{''"
    unfolding rest_def using hd_dropWhile[of "\<lambda>c. c \<noteq> CHR ''{''" stdout] by simp
  from closing have dnz: "dropWhile (\<lambda>c. c \<noteq> CHR ''}'') (rev rest) \<noteq> []"
    by (simp add: dropWhile_eq_Nil_conv)
  then have mnz: "m \<noteq> []" by (simp add: m)
  from dnz have "hd (dropWhile (\<lambda>c. c \<noteq> CHR ''}'') (rev rest)) = CHR ''}''"
    using hd_dropWhile[of "\<lambda>c. c \<noteq> CHR ''}''" "rev rest"] by simp
  then have lastm: "last m = CHR ''}''" using dnz by (simp add: m last_rev)
  from r mnz hdrest have hdm: "hd m = CHR ''{''" by (cases m) auto
  from s r nopre nopost hdm lastm show ?thesis by blast
qed

lemma regex_brace_span_None:
  "regex_brace_span stdout = None \<longleftrightarrow> \<not> (\<exists>a b c. stdout = a @ ''{'' @ b @ ''}'' @ c)"
proof -
  define rest where "rest = dropWhile (\<lambda>c. c \<noteq> CHR ''{'') stdout"
  have none: "regex_brace_span stdout = None \<longleftrightarrow> CHR ''}'' \<notin> set rest"
    by (simp add: regex_brace_span_def rest_def Let_def)
  have "CHR ''}'' \<in> set rest \<longleftrightarrow> (\<exists>a b c. stdout = a @ ''{'' @ b @ ''}'' @ c)"
  proof
    assume closing: "CHR ''}'' \<in> set rest"
    then have "rest \<noteq> []" by auto
    then have "hd rest = CHR ''{''"
      unfolding rest_def using hd_dropWhile[of "\<lambda>c. c \<noteq> CHR ''{''" stdout] by simp
    with \<open>rest \<noteq> []\<close> obtain r where r: "rest = CHR ''{'' # r" by (cases rest) auto
    with closing have "CHR ''}'' \<in> set r" by simp
    then obtain b c where "r = b @ CHR ''}'' # c" by (auto dest: split_list)
    with r have "stdout = takeWhile (\<lambda>c. c \<noteq> CHR ''{'') stdout @ ''{'' @ b @ ''}'' @ c"
      using takeWhile_dropWhile_id[of "\<lambda>c. c \<noteq> CHR ''{''" stdout] by (simp add: rest_def)
    then show "\<exists>a b c. stdout = a @ ''{'' @ b @ ''}'' @ c" by blast
  next
    assume "\<exists>a b c. stdout = a @ ''{'' @ b @ ''}'' @ c"
    then obtain a b c where eq: "stdout = a @ ''{'' @ b @ ''}'' @ c" by blast
    have "dropWhile (\<lambda>c. c \<noteq> CHR ''{'') ((a @ ''{'') @ (b @ ''}'' @ c))
            = dropWhile (\<lambda>c. c \<noteq> CHR ''{'') (a @ ''{'') @ (b @ ''}'' @ c)"
      by (rule dropWhile_append1[of "CHR ''{''"]) auto
    with eq have "rest = dropWhile (\<lambda>c. c \<noteq> CHR ''{'') (a @ ''{'') @ b @ ''}'' @ c"
      by (simp add: rest_def)
    then show "CHR ''}'' \<in> set rest" by simp
  qed
  with none show ?thesis by simp
qed

lemma devices_handler_raises_only_before_output:
  assumes "devices_handler P token s = (r, s')"
  shows "(\<exists>stdout. r = Inr (devices_payload P stdout))
       \<or> (\<exists>e. r = Inl e \<and> (last (snd s') = EnsureGateway False
                             \<or> (\<exists>c. last (snd s') = StartProcess c False)))"
  using assms
  by (auto simp: devices_handler_def execCommand_def invoke_def Let_def resolved_def
           split: prod.splits sum.splits if_splits option.splits)

text \<open>
  Claim C6, as the code has it. The device listing takes from the command output the
  span that runs from the first opening brace to the last closing brace (the greedy
  match), not the first balanced span. When there is such a span and it parses, the
  parsed value is the result. When there is no opening brace followed by a closing
  brace, or the span does not parse, the result is the object with empty
  \<^verbatim>\<open>pending\<close> and \<^verbatim>\<open>paired\<close> lists and \<^verbatim>\<open>raw\<close> set to the output, or to
  \<^verbatim>\<open>No output from CLI\<close> when the output is empty. Nothing is thrown at this stage.
\<close>

theorem devices_payload_extracts_outermost_braces:
  "(\<forall>m. regex_brace_span stdout = Some m \<longrightarrow>
        (\<exists>pre post. stdout = pre @ m @ post \<and> CHR ''{'' \<notin> set pre \<and> CHR ''}'' \<notin> set post
            \<and> hd m = CHR ''{'' \<and> last m = CHR ''}'')
        \<and> (\<forall>v. JSON_parse P m = Some v \<longrightarrow> devices_payload P stdout = v))
   \<and> (regex_brace_span stdout = None \<longleftrightarrow> \<not> (\<exists>a b c. stdout = a @ ''{'' @ b @ ''}'' @ c))
   \<and> (regex_brace_span stdout = None
        \<or> (\<exists>m. regex_brace_span stdout = Some m \<and> JSON_parse P m = None)
      \<longrightarrow> devices_payload P stdout =
            JObj [(''pending'', JArr []), (''paired'', JArr []),
                  (''raw'', JStr (if stdout = [] then ''No output from CLI'' else stdout))])"
  using regex_brace_span_Some[of stdout] regex_brace_span_None[of stdout]
  by (auto simp: devices_payload_def devices_fallback_def)

theorem devices_payload_witness:
  "regex_brace_span ''status: {} }'' = Some ''{} }''
   \<and> JSON_parse mock_platform ''{} }'' = None
   \<and> devices_payload mock_platform ''status: {} }''
       = JObj [(''pending'', JArr []), (''paired'', JArr []), (''raw'', JStr ''status: {} }'')]"
  using devices_payload_extracts_outermost_braces[of "''status: {} }''" mock_platform]
  by (simp add: regex_brace_span_def mock_platform_def mock_JSON_table_def listing_text_def)

theorem devices_payload_counterexample:
  "first_balanced_span ''status: {} }'' = Some ''{}''
   \<and> regex_brace_span ''status: {} }'' = Some ''{} }''
   \<and> JSON_parse mock_platform ''{}'' = Some (JObj [])
   \<and> devices_payload mock_platform ''status: {} }''
       = JObj [(''pending'', JArr []), (''paired'', JArr []), (''raw'', JStr ''status: {} }'')]"
  by (simp add: regex_brace_span_def mock_platform_def mock_JSON_table_def listing_text_def
        devices_payload_def devices_fallback_def)

section \<open>State restore engine: what a restore fetches and writes\<close>

lemma fetched_append [simp]: "fetched (xs @ ys) = fetched xs @ fetched ys"
  by (induction xs rule: fetched.induct) simp_all

lemma written_append [simp]: "written (xs @ ys) = written xs @ written ys"
  by (induction xs rule: written.induct) simp_all

lemma map_filter_append: "List.map_filter f (xs @ ys) = List.map_filter f xs @ List.map_filter f ys"
  by (simp add: List.map_filter_def)

lemma restore_trace_append:
  "restore_trace pfx dir ks1 e1 \<Longrightarrow> restore_trace pfx dir ks2 e2 \<Longrightarrow>
     restore_trace pfx dir (ks1 @ ks2) (e1 @ e2)"
  by (simp add: restore_trace_def map_filter_append)

lemma write_successes_append [simp]:
  "write_successes (xs @ ys) = write_successes xs + write_successes ys"
  by (simp add: write_successes_def)

lemma eligible_iff: "eligible pfx key \<longleftrightarrow> \<not> shouldSkipKey key \<and> drop (length pfx) key \<noteq> []"
  by (auto simp: eligible_def shouldSkipKey_def SKIP_EXTENSIONS_def)

lemma mkdirCached_trace:
  "\<exists>m dirs' w'. mkdirCached P dir cache s = (dirs', (w', snd s @ m))
      \<and> fetched m = [] \<and> written m = []"
proof (cases "dir \<in> cache")
  case True
  then have "mkdirCached P dir cache s = (cache, (fst s, snd s @ []))"
    by (simp add: mkdirCached_def)
  moreover have "fetched [] = [] \<and> written [] = []" by simp
  ultimately show ?thesis by blast
next
  case False
  obtain r w1 where "sandbox_mkdir P dir (fst s) = (r, w1)" by (cases "sandbox_mkdir P dir (fst s)")
  with False have "mkdirCached P dir cache s = (insert dir cache, (w1, snd s @ [Mkdir dir]))"
    by (simp add: mkdirCached_def invoke_def)
  moreover have "fetched [Mkdir dir] = [] \<and> written [Mkdir dir] = []" by simp
  ultimately show ?thesis by blast
qed

lemma ensure_parent_trace:
  "\<exists>m dirs' w'. ensure_parent P path dirs s = (dirs', (w', snd s @ m))
      \<and> fetched m = [] \<and> written m = []"
proof (cases "\<exists>i. lastIndexOf_slash path = Some i \<and> i > 0")
  case True
  then obtain i where "lastIndexOf_slash path = Some i" "i > 0" by blast
  then have "ensure_parent P path dirs s = mkdirCached P (take i path) dirs s"
    by (simp add: ensure_parent_def)
  with mkdirCached_trace[of P "take i path" dirs s] show ?thesis by simp
next
  case False
  then have "ensure_parent P path dirs s = (dirs, (fst s, snd s @ []))"
    by (auto simp: ensure_parent_def split: option.splits)
  moreover have "fetched [] = [] \<and> written [] = []" by simp
  ultimately show ?thesis by blast
qed

lemma restore_object_trace:
  "\<exists>new count' dirs' w'.
      restore_object P pfx dir key count dirs s = (count', dirs', (w', snd s @ new))
      \<and> restore_trace pfx dir [key] new \<and> count' = count + write_successes new"
proof (cases "eligible pfx key")
  case False
  then have "restore_object P pfx dir key count dirs s = (count, dirs, (fst s, snd s @ []))"
    by (auto simp: restore_object_def eligible_iff Let_def)
  moreover have "restore_trace pfx dir [key] []"
    using False by (simp add: restore_trace_def List.map_filter_def)
  moreover have "count = count + write_successes []" by (simp add: write_successes_def)
  ultimately show ?thesis by blast
next
  case True
  let ?path = "dir @ ''/'' @ drop (length pfx) key"
  from ensure_parent_trace[of P ?path dirs s] obtain m dirs1 w1 where
    mk: "ensure_parent P ?path dirs s = (dirs1, (w1, snd s @ m))"
    and quiet: "fetched m = []" "written m = []" by blast
  obtain g w2 where get: "bucket_get P key w1 = (g, w2)" by (cases "bucket_get P key w1")
  from True have go: "\<not> shouldSkipKey key" "drop (length pfx) key \<noteq> []"
    by (simp_all add: eligible_iff)
  have unfold: "restore_object P pfx dir key count dirs s =
      (case g of
         Inl e \<Rightarrow> (count, dirs1, (w2, snd s @ m @ [R2Get key (body_of g)]))
       | Inr None \<Rightarrow> (count, dirs1, (w2, snd s @ m @ [R2Get key (body_of g)]))
       | Inr (Some content) \<Rightarrow>
           (case invoke (sandbox_writeFile P ?path content)
                   (\<lambda>r. WriteFile ?path content (resolved r))
                   (w2, snd s @ m @ [R2Get key (body_of g)]) of
              (Inl e, s3) \<Rightarrow> (count, dirs1, s3)
            | (Inr u, s3) \<Rightarrow> (count + 1, dirs1, s3)))"
    unfolding restore_object_def Let_def using go
    by (simp add: mk[simplified] invoke_def get)
  show ?thesis
  proof (cases "body_of g")
    case None
    with unfold
    have "restore_object P pfx dir key count dirs s
            = (count, dirs1, (w2, snd s @ (m @ [R2Get key None])))"
      by (auto simp: body_of_def split: sum.splits option.splits)
    moreover have "restore_trace pfx dir [key] (m @ [R2Get key None])"
      using True quiet by (simp add: restore_trace_def List.map_filter_def)
    moreover have "count = count + write_successes (m @ [R2Get key None])"
      using quiet by (simp add: write_successes_def)
    ultimately show ?thesis by blast
  next
    case (Some content)
    then have g: "g = Inr (Some content)" by (auto simp: body_of_def split: sum.splits)
    obtain wr w3 where wrt: "sandbox_writeFile P ?path content w2 = (wr, w3)"
      by (cases "sandbox_writeFile P ?path content w2")
    let ?new = "m @ [R2Get key (Some content), WriteFile ?path content (resolved wr)]"
    from unfold g wrt
    have "restore_object P pfx dir key count dirs s
            = (if resolved wr then count + 1 else count, dirs1, (w3, snd s @ ?new))"
      by (cases wr) (simp_all add: invoke_def body_of_def resolved_def)
    moreover have "restore_trace pfx dir [key] ?new"
      using True quiet by (simp add: restore_trace_def List.map_filter_def restore_target_def)
    moreover have "(if resolved wr then count + 1 else count) = count + write_successes ?new"
      using quiet by (simp add: write_successes_def)
    ultimately show ?thesis by blast
  qed
qed

lemma restore_objects_trace:
  "\<exists>new count' dirs' w'.
      restore_objects P pfx dir keys count dirs s = (count', dirs', (w', snd s @ new))
      \<and> restore_trace pfx dir keys new \<and> count' = count + write_successes new"
proof (induction keys arbitrary: count dirs s)
  case Nil
  have "restore_objects P pfx dir [] count dirs s = (count, dirs, (fst s, snd s @ []))" by simp
  moreover have "restore_trace pfx dir [] []" by (simp add: restore_trace_def List.map_filter_def)
  moreover have "count = count + write_successes []" by (simp add: write_successes_def)
  ultimately show ?case by blast
next
  case (Cons key rest)
  from restore_object_trace[of P pfx dir key count dirs s] obtain new1 c1 d1 w1 where
    step: "restore_object P pfx dir key count dirs s = (c1, d1, (w1, snd s @ new1))"
    and t1: "restore_trace pfx dir [key] new1" and n1: "c1 = count + write_successes new1" by blast
  from Cons.IH[of c1 d1 "(w1, snd s @ new1)"] obtain new2 c2 d2 w2 where
    loop: "restore_objects P pfx dir rest c1 d1 (w1, snd s @ new1) = (c2, d2, (w2, (snd s @ new1) @ new2))"
    and t2: "restore_trace pfx dir rest new2" and n2: "c2 = c1 + write_successes new2" by auto
  have "restore_objects P pfx dir (key # rest) count dirs s = (c2, d2, (w2, snd s @ (new1 @ new2)))"
    using step loop by simp
  moreover have "restore_trace pfx dir (key # rest) (new1 @ new2)"
    using restore_trace_append[OF t1 t2] by simp
  moreover have "c2 = count + write_successes (new1 @ new2)" using n1 n2 by simp
  ultimately show ?case by blast
qed

lemma restore_pages_trace:
  assumes pure: "\<And>cur w. fst (bucket_list P (Some pfx) cur w) = page_of cur"
  shows "paginated_listing page_of n cur = Some pages \<Longrightarrow>
     \<exists>new count' w'.
        restore_pages P pfx dir cur count dirs s = Some (Inr count', (w', snd s @ new))
        \<and> restore_trace pfx dir (concat (map objects pages)) new
        \<and> count' = count + write_successes new"
proof (induction n arbitrary: cur count dirs s pages)
  case 0
  then show ?case by simp
next
  case (Suc n)
  obtain lr w1 where call: "bucket_list P (Some pfx) cur (fst s) = (lr, w1)"
    by (cases "bucket_list P (Some pfx) cur (fst s)")
  with pure[of cur "fst s"] have lr: "lr = page_of cur" by simp
  with Suc.prems obtain page where page: "page_of cur = Inr page"
    by (cases "page_of cur") auto
  let ?s1 = "(w1, snd s @ [R2List (Some pfx) cur])"
  from restore_objects_trace[of P pfx dir "objects page" count dirs ?s1]
  obtain new1 c1 d1 w2 where
    objs: "restore_objects P pfx dir (objects page) count dirs ?s1 = (c1, d1, (w2, snd ?s1 @ new1))"
    and t1: "restore_trace pfx dir (objects page) new1"
    and n1: "c1 = count + write_successes new1" by blast
  have t0: "restore_trace pfx dir [] [R2List (Some pfx) cur]"
    by (simp add: restore_trace_def List.map_filter_def)
  have t01: "restore_trace pfx dir (objects page) ([R2List (Some pfx) cur] @ new1)"
    using restore_trace_append[OF t0 t1] by simp
  have w0: "write_successes [R2List (Some pfx) cur] = 0" by (simp add: write_successes_def)
  show ?case
  proof (cases "next_cursor page")
    case None
    then have last: "pages = [page]"
      using Suc.prems page
      by (auto simp: next_cursor_def split: if_splits option.splits)
    have "restore_pages P pfx dir cur count dirs s
            = Some (Inr c1, (w2, snd s @ ([R2List (Some pfx) cur] @ new1)))"
      using call lr page objs None
      by (subst restore_pages.simps) (simp add: invoke_def)
    moreover have "restore_trace pfx dir (concat (map objects pages)) ([R2List (Some pfx) cur] @ new1)"
      using t01 last by simp
    moreover have "c1 = count + write_successes ([R2List (Some pfx) cur] @ new1)"
      using n1 by (simp add: write_successes_def)
    ultimately show ?thesis by blast
  next
    case (Some c)
    then obtain more where more: "paginated_listing page_of n (Some c) = Some more"
      and pages: "pages = page # more"
      using Suc.prems page
      by (auto simp: next_cursor_def split: if_splits option.splits)
    from Suc.IH[OF more, of c1 d1 "(w2, snd ?s1 @ new1)"] obtain new2 c2 w3 where
      rest: "restore_pages P pfx dir (Some c) c1 d1 (w2, snd ?s1 @ new1)
               = Some (Inr c2, (w3, (snd ?s1 @ new1) @ new2))"
      and t2: "restore_trace pfx dir (concat (map objects more)) new2"
      and n2: "c2 = c1 + write_successes new2" by auto
    have "restore_pages P pfx dir cur count dirs s
            = Some (Inr c2, (w3, snd s @ (([R2List (Some pfx) cur] @ new1) @ new2)))"
      using call lr page objs Some rest
      by (subst restore_pages.simps) (simp add: invoke_def)
    moreover have "restore_trace pfx dir (concat (map objects pages))
                     (([R2List (Some pfx) cur] @ new1) @ new2)"
      using restore_trace_append[OF t01 t2] pages by simp
    moreover have "c2 = count + write_successes (([R2List (Some pfx) cur] @ new1) @ new2)"
      using n1 n2 by (simp add: write_successes_def)
    ultimately show ?thesis by blast
  qed
qed

text \<open>
  Claim C4, as the code has it. Take a listing under the prefix that ends after finitely
  many pages, each truncated page carrying a cursor. \<^verbatim>\<open>restorePrefix\<close> returns, and on the
  way it gets from the bucket exactly the listed keys that are eligible, in listing order:
  the key does not end in \<^verbatim>\<open>/\<close>, holds neither \<^verbatim>\<open>.jsonl\<close> nor \<^verbatim>\<open>.bak\<close> anywhere (a
  substring test, not a test of the extension), holds no double quote, no opening brace
  and no backslash followed by \<^verbatim>\<open>n\<close>, and is longer than the prefix. It calls
  \<^verbatim>\<open>writeFile\<close> exactly for the gets that answered with a body, on the container
  directory joined with the key less the prefix, with that body; the count it returns is
  the number of those writes that resolved.
\<close>

theorem restorePrefix_writes_eligible_objects:
  assumes pure: "\<And>cur w. fst (bucket_list P (Some pfx) cur w) = page_of cur"
    and finite: "paginated_listing page_of n None = Some pages"
  shows "\<exists>new count w'.
        restorePrefix P pfx containerDir s = Some (Inr count, (w', snd s @ new))
        \<and> map fst (fetched new) = filter (eligible pfx) (concat (map objects pages))
        \<and> map (\<lambda>(path, content, ok). (path, content)) (written new) =
            List.map_filter
              (\<lambda>(key, body). map_option (\<lambda>content. (containerDir @ ''/'' @ drop (length pfx) key, content)) body)
              (fetched new)
        \<and> count = length (filter (\<lambda>(path, content, ok). ok) (written new))
        \<and> (\<forall>key. eligible pfx key \<longleftrightarrow> \<not> shouldSkipKey key \<and> drop (length pfx) key \<noteq> [])"
proof -
  from mkdirCached_trace[of P containerDir "{}" s] obtain m dirs1 w1 where
    mk: "mkdirCached P containerDir {} s = (dirs1, (w1, snd s @ m))"
    and quiet: "fetched m = []" "written m = []" by blast
  from restore_pages_trace[of P pfx page_of n None pages containerDir 0 dirs1 "(w1, snd s @ m)", OF pure finite]
  obtain new count w' where
    run: "restore_pages P pfx containerDir None 0 dirs1 (w1, snd s @ m)
            = Some (Inr count, (w', snd (w1, snd s @ m) @ new))"
    and tr: "restore_trace pfx containerDir (concat (map objects pages)) new"
    and cnt: "count = 0 + write_successes new" by blast
  have "restorePrefix P pfx containerDir s = Some (Inr count, (w', snd s @ (m @ new)))"
    using mk run by (simp add: restorePrefix_def)
  moreover have "map fst (fetched (m @ new)) = filter (eligible pfx) (concat (map objects pages))"
    using tr quiet by (simp add: restore_trace_def)
  moreover have "map (\<lambda>(path, content, ok). (path, content)) (written (m @ new)) =
            List.map_filter
              (\<lambda>(key, body). map_option (\<lambda>content. (containerDir @ ''/'' @ drop (length pfx) key, content)) body)
              (fetched (m @ new))"
    using tr quiet by (simp add: restore_trace_def restore_target_def)
  moreover have "count = length (filter (\<lambda>(path, content, ok). ok) (written (m @ new)))"
    using cnt quiet by (simp add: write_successes_def)
  ultimately show ?thesis using eligible_iff by blast
qed

theorem restorePrefix_witness:
  \<open>paginated_listing restore_page_of 2 None
     = Some [\<lparr>objects = [''workspace/IDENTITY.md'', ''workspace/sessions/chat.jsonl'',
                          ''workspace/openclaw.json.bak''],
              truncated = True, cursor = Some ''page2''\<rparr>,
             \<lparr>objects = [''workspace/data: {"type"'', ''workspace/memory/notes.md''],
              truncated = False, cursor = None\<rparr>]
   \<and> restorePrefix restore_platform ''workspace/'' ''/root/clawd'' ((), [])
     = Some (Inr 2,
        ((), [Mkdir ''/root/clawd'',
              R2List (Some ''workspace/'') None,
              R2Get ''workspace/IDENTITY.md'' (Some ''body of workspace/IDENTITY.md''),
              WriteFile ''/root/clawd/IDENTITY.md'' ''body of workspace/IDENTITY.md'' True,
              R2List (Some ''workspace/'') (Some ''page2''),
              Mkdir ''/root/clawd/memory'',
              R2Get ''workspace/memory/notes.md'' (Some ''body of workspace/memory/notes.md''),
              WriteFile ''/root/clawd/memory/notes.md'' ''body of workspace/memory/notes.md'' True]))\<close>
proof -
  have pure: "\<And>cur w. fst (bucket_list restore_platform (Some ''workspace/'') cur w) = restore_page_of cur"
    by (simp add: restore_platform_def mock_platform_def)
  have finite: \<open>paginated_listing restore_page_of (Suc (Suc 0)) None
     = Some [\<lparr>objects = [''workspace/IDENTITY.md'', ''workspace/sessions/chat.jsonl'',
                          ''workspace/openclaw.json.bak''],
              truncated = True, cursor = Some ''page2''\<rparr>,
             \<lparr>objects = [''workspace/data: {"type"'', ''workspace/memory/notes.md''],
              truncated = False, cursor = None\<rparr>]\<close>
    by (simp add: restore_page_of_def)
  have run: \<open>restorePrefix restore_platform ''workspace/'' ''/root/clawd'' ((), [])
     = Some (Inr 2,
        ((), [Mkdir ''/root/clawd'',
              R2List (Some ''workspace/'') None,
              R2Get ''workspace/IDENTITY.md'' (Some ''body of workspace/IDENTITY.md''),
              WriteFile ''/root/clawd/IDENTITY.md'' ''body of workspace/IDENTITY.md'' True,
              R2List (Some ''workspace/'') (Some ''page2''),
              Mkdir ''/root/clawd/memory'',
              R2Get ''workspace/memory/notes.md'' (Some ''body of workspace/memory/notes.md''),
              WriteFile ''/root/clawd/memory/notes.md'' ''body of workspace/memory/notes.md'' True]))\<close>
    by (simp add: restorePrefix_def restore_pages.simps restore_platform_def mock_platform_def
        restore_page_of_def mkdirCached_def invoke_def restore_object_def ensure_parent_def
        shouldSkipKey_def SKIP_EXTENSIONS_def js_endsWith_def next_cursor_def body_of_def
        resolved_def Let_def)
  from restorePrefix_writes_eligible_objects[OF pure finite, of "''/root/clawd''" "((), [])"] finite run
  show ?thesis by (simp add: numeral_2_eq_2)
qed

theorem restorePrefix_counterexample:
  "\<not> js_endsWith ''workspace/notes.bak.md'' ''/''
   \<and> \<not> js_endsWith ''workspace/notes.bak.md'' ''.jsonl''
   \<and> \<not> js_endsWith ''workspace/notes.bak.md'' ''.bak''
   \<and> \<not> corrupt_key ''workspace/notes.bak.md''
   \<and> restorePrefix bak_platform ''workspace/'' ''/root/clawd'' ((), [])
       = Some (Inr 0, ((), [Mkdir ''/root/clawd'', R2List (Some ''workspace/'') None]))"
  by (simp add: restorePrefix_def restore_pages.simps bak_platform_def mock_platform_def
        bak_page_of_def mkdirCached_def invoke_def restore_object_def ensure_parent_def
        shouldSkipKey_def SKIP_EXTENSIONS_def js_endsWith_def next_cursor_def body_of_def
        resolved_def Let_def corrupt_key_def)

section \<open>State restore engine: first boot\<close>

text \<open>
  Claim C3, as the code has it. When the bucket answers \<^verbatim>\<open>null\<close> for \<^verbatim>\<open>.last-sync\<close>,
  \<^verbatim>\<open>restoreFromR2\<close> returns the boolean \<^verbatim>\<open>false\<close> (its result is a boolean, not a count)
  and has called nothing but that one \<^verbatim>\<open>get\<close>: no \<^verbatim>\<open>writeFile\<close>, no \<^verbatim>\<open>mkdir\<close>, no other
  sandbox operation. Without a bucket binding it returns \<^verbatim>\<open>false\<close> and calls nothing.
\<close>

theorem restoreFromR2_without_marker:
  assumes "bucket_get P ''.last-sync'' (fst s) = (Inr None, w1)"
  shows "(has_bucket P \<longrightarrow>
            restoreFromR2 P s = Some (Inr False, (w1, snd s @ [R2Get ''.last-sync'' None])))
       \<and> (\<not> has_bucket P \<longrightarrow> restoreFromR2 P s = Some (Inr False, s))"
  using assms by (simp add: restoreFromR2_def invoke_def body_of_def)

theorem restoreFromR2_witness:
  "bucket_get mock_platform ''.last-sync'' (fst ((), [])) = (Inr None, ())
   \<and> has_bucket mock_platform
   \<and> restoreFromR2 mock_platform ((), []) = Some (Inr False, ((), [R2Get ''.last-sync'' None]))"
  using restoreFromR2_without_marker[of mock_platform "((), [])" "()"]
  by (simp add: mock_platform_def)

theorem restoreFromR2_counterexample:
  "restoreFromR2 mock_platform ((), []) = Some (Inr False, ((), [R2Get ''.last-sync'' None]))
   \<and> js_boolean False \<noteq> JNum 0"
  by (simp add: mock_platform_def restoreFromR2_def invoke_def body_of_def js_boolean_def)

section \<open>State sync engine: the listing\<close>

lemma admitted_paths_clean:
  "p \<in> set (admitted_paths data) \<Longrightarrow> js_startsWith p ''/'' \<and> isCleanPath p"
  by (simp add: admitted_paths_def)

lemma collect_files_step:
  "collect_files (evt # rest) acc = Inr files \<Longrightarrow>
     collect_files rest acc = Inr files
     \<or> (\<exists>data. collect_files rest (acc @ admitted_paths data) = Inr files)"
  by (fastforce split: sum.splits option.splits json.splits if_splits)

lemma collect_files_admitted:
  "collect_files evts acc = Inr files \<Longrightarrow>
   \<forall>p \<in> set acc. js_startsWith p ''/'' \<and> isCleanPath p \<Longrightarrow>
   \<forall>p \<in> set files. js_startsWith p ''/'' \<and> isCleanPath p"
proof (induction evts arbitrary: acc)
  case Nil
  then show ?case by simp
next
  case (Cons evt rest)
  from collect_files_step[OF Cons.prems(1)] show ?case
  proof
    assume "collect_files rest acc = Inr files"
    from Cons.IH[OF this Cons.prems(2)] show ?thesis .
  next
    assume "\<exists>data. collect_files rest (acc @ admitted_paths data) = Inr files"
    then obtain data where c: "collect_files rest (acc @ admitted_paths data) = Inr files" by blast
    have "\<forall>p \<in> set (acc @ admitted_paths data). js_startsWith p ''/'' \<and> isCleanPath p"
      using Cons.prems(2) admitted_paths_clean by auto
    from Cons.IH[OF c this] show ?thesis .
  qed
qed

lemma isCleanPath_rejects:
  "isCleanPath path \<Longrightarrow>
     \<not> js_includes path [DQUOTE] \<and> \<not> js_includes path ''{'' \<and> \<not> js_includes path ''}''
     \<and> \<not> js_includes path [BACKSLASH, CHR ''n'']
     \<and> \<not> js_includes path ''tdout'' \<and> \<not> js_includes path ''omplete''
     \<and> \<not> js_includes path ''exitCode''
     \<and> \<not> (js_includes path ''timestamp'' \<and> js_includes path ''data'')"
  unfolding isCleanPath_def by (simp split: if_splits)

text \<open>
  Claim C10. Every path that \<^verbatim>\<open>listContainerFiles\<close> returns starts with \<^verbatim>\<open>/\<close> and
  passes \<^verbatim>\<open>isCleanPath\<close>, which rejects a path holding a double quote, a brace, a
  backslash followed by \<^verbatim>\<open>n\<close>, one of \<^verbatim>\<open>tdout\<close>, \<^verbatim>\<open>omplete\<close>, \<^verbatim>\<open>exitCode\<close>, or both
  \<^verbatim>\<open>timestamp\<close> and \<^verbatim>\<open>data\<close>. So a file such as \<^verbatim>\<open>/root/clawd/incomplete.md\<close> is in no
  listing, and no sync pass reads it.
\<close>

theorem listContainerFiles_admits_clean_paths_only:
  assumes "listContainerFiles P dirPath excludeDirs s = (Inr files, s')"
  shows "(\<forall>path \<in> set files.
            js_startsWith path ''/'' \<and> isCleanPath path
            \<and> \<not> js_includes path [DQUOTE] \<and> \<not> js_includes path ''{'' \<and> \<not> js_includes path ''}''
            \<and> \<not> js_includes path [BACKSLASH, CHR ''n'']
            \<and> \<not> js_includes path ''tdout'' \<and> \<not> js_includes path ''omplete''
            \<and> \<not> js_includes path ''exitCode''
            \<and> \<not> (js_includes path ''timestamp'' \<and> js_includes path ''data''))
         \<and> ''/root/clawd/incomplete.md'' \<notin> set files"
proof -
  from assms obtain evts where "collect_files evts [] = Inr files"
    by (auto simp: listContainerFiles_def Let_def split: prod.splits sum.splits)
  then have adm: "\<forall>p \<in> set files. js_startsWith p ''/'' \<and> isCleanPath p"
    by (rule collect_files_admitted) simp
  have "\<not> isCleanPath ''/root/clawd/incomplete.md''"
    by (simp add: isCleanPath_def)
  with adm isCleanPath_rejects show ?thesis by blast
qed

theorem listContainerFiles_witness:
  "listContainerFiles listing_platform ''/root/clawd'' [''skills''] ((), [])
     = (Inr [''/root/clawd/IDENTITY.md''], ((), [ExecStream (find_command ''/root/clawd'' [''skills''])]))
   \<and> js_startsWith ''/root/clawd/IDENTITY.md'' ''/'' \<and> isCleanPath ''/root/clawd/IDENTITY.md''
   \<and> \<not> isCleanPath ''/root/clawd/incomplete.md''"
  using listContainerFiles_admits_clean_paths_only
          [of listing_platform "''/root/clawd''" "[''skills'']" "((), [])"
              "[''/root/clawd/IDENTITY.md'']"
              "((), [ExecStream (find_command ''/root/clawd'' [''skills''])])"]
  by (simp add: listing_platform_def mock_platform_def listContainerFiles_def invoke_def
        readStreamToString_def sse_frame_def listing_text_def mock_JSON_table_def
        parseSSEEvents_def js_trim_def js_whitespace_def js_startsWith_def
        admitted_paths_def isCleanPath_def)

section \<open>State sync engine: the uploads of a pass\<close>

lemma uploads_append [simp]: "uploads (xs @ ys) = uploads xs @ uploads ys"
  by (induction xs rule: uploads.induct) simp_all

lemma upload_successes_append [simp]:
  "upload_successes (xs @ ys) = upload_successes xs + upload_successes ys"
  by (simp add: upload_successes_def)

lemma tree_uploads_append [simp]:
  "tree_uploads pre (xs @ ys) \<longleftrightarrow> tree_uploads pre xs \<and> tree_uploads pre ys"
  by (simp add: tree_uploads_def)

lemma sync_file_trace:
  "\<exists>new w'. sync_file P dir pre filePath count s
               = (count + upload_successes new, (w', snd s @ new))
      \<and> tree_uploads pre new \<and> length (uploads new) \<le> 1"
proof -
  obtain rd w1 where read: "sandbox_readFileStream P filePath (fst s) = (rd, w1)"
    by (cases "sandbox_readFileStream P filePath (fst s)")
  let ?key = "pre @ ''/'' @ drop (length dir + 1) filePath"
  let ?e1 = "[ReadFileStream filePath]"
  have quiet: "tree_uploads pre ?e1" "upload_successes ?e1 = 0" "length (uploads ?e1) \<le> 1"
    by (simp_all add: tree_uploads_def upload_successes_def)
  consider (nothing) "sync_file P dir pre filePath count s = (count, (w1, snd s @ ?e1))"
    | (put) body and pr :: "thrown + unit" and w2 where "body \<noteq> []"
        "sync_file P dir pre filePath count s
           = (if resolved pr then count + 1 else count,
              (w2, snd s @ (?e1 @ [R2Put ?key body (resolved pr)])))"
  proof (cases rd)
    case (Inl e)
    with read have "sync_file P dir pre filePath count s = (count, (w1, snd s @ ?e1))"
      by (simp add: sync_file_def invoke_def Let_def)
    then show ?thesis by (rule nothing)
  next
    case (Inr chunks)
    show ?thesis
    proof (cases "chunk_content (parseSSEEvents (JSON_parse P) (readStreamToString chunks)) []")
      case (Inl e)
      with read \<open>rd = Inr chunks\<close>
      have "sync_file P dir pre filePath count s = (count, (w1, snd s @ ?e1))"
        by (simp add: sync_file_def invoke_def Let_def)
      then show ?thesis by (rule nothing)
    next
      case (Inr body)
      show ?thesis
      proof (cases "body = []")
        case True
        with read \<open>rd = Inr chunks\<close> Inr
        have "sync_file P dir pre filePath count s = (count, (w1, snd s @ ?e1))"
          by (simp add: sync_file_def invoke_def Let_def)
        then show ?thesis by (rule nothing)
      next
        case False
        obtain pr w2 where p: "bucket_put P ?key body w1 = (pr, w2)"
          by (cases "bucket_put P ?key body w1")
        with read \<open>rd = Inr chunks\<close> Inr False p[simplified]
        have "sync_file P dir pre filePath count s
           = (if resolved pr then count + 1 else count,
              (w2, snd s @ (?e1 @ [R2Put ?key body (resolved pr)])))"
          by (cases pr) (simp_all add: sync_file_def invoke_def Let_def resolved_def)
        with False show ?thesis by (rule put)
      qed
    qed
  qed
  then show ?thesis
  proof cases
    case nothing
    then have "sync_file P dir pre filePath count s
                 = (count + upload_successes ?e1, (w1, snd s @ ?e1))"
      using quiet(2) by simp
    moreover note quiet(1) quiet(3)
    ultimately show ?thesis by blast
  next
    case (put body pr w2)
    let ?new = "?e1 @ [R2Put ?key body (resolved pr)]"
    have "(if resolved pr then count + 1 else count) = count + upload_successes ?new"
      by (simp add: upload_successes_def)
    with put(2) have "sync_file P dir pre filePath count s
                 = (count + upload_successes ?new, (w2, snd s @ ?new))"
      by simp
    moreover have "tree_uploads pre ?new"
      using put(1) by (simp add: tree_uploads_def js_startsWith_def)
    moreover have "length (uploads ?new) \<le> 1" by simp
    ultimately show ?thesis by blast
  qed
qed

lemma sync_files_trace:
  "\<exists>new w'. sync_files P dir pre files count s
               = (count + upload_successes new, (w', snd s @ new))
      \<and> tree_uploads pre new \<and> length (uploads new) \<le> length files"
proof (induction files arbitrary: count s)
  case Nil
  have "sync_files P dir pre [] count s = (count + upload_successes [], (fst s, snd s @ []))"
    by (simp add: upload_successes_def)
  moreover have "tree_uploads pre [] \<and> length (uploads []) \<le> length ([]::string list)"
    by (simp add: tree_uploads_def)
  ultimately show ?case by blast
next
  case (Cons f rest)
  from sync_file_trace[of P dir pre f count s] obtain new1 w1 where
    step: "sync_file P dir pre f count s = (count + upload_successes new1, (w1, snd s @ new1))"
    and t1: "tree_uploads pre new1" and l1: "length (uploads new1) \<le> 1" by blast
  from Cons.IH[of "count + upload_successes new1" "(w1, snd s @ new1)"] obtain new2 w2 where
    loop: "sync_files P dir pre rest (count + upload_successes new1) (w1, snd s @ new1)
             = (count + upload_successes new1 + upload_successes new2, (w2, (snd s @ new1) @ new2))"
    and t2: "tree_uploads pre new2" and l2: "length (uploads new2) \<le> length rest" by auto
  have "sync_files P dir pre (f # rest) count s
          = (count + upload_successes (new1 @ new2), (w2, snd s @ (new1 @ new2)))"
    using step loop by simp
  moreover have "tree_uploads pre (new1 @ new2)" using t1 t2 by simp
  moreover have "length (uploads (new1 @ new2)) \<le> length (f # rest)" using l1 l2 by simp
  ultimately show ?case by blast
qed

lemma chunk_content_without_chunks:
  "list_all (\<lambda>evt. evt \<noteq> JNull \<and> js_prop evt ''type'' \<noteq> Inr (Some (JStr ''chunk''))) evts \<Longrightarrow>
     chunk_content evts fileContent = Inr fileContent"
proof (induction evts)
  case Nil
  then show ?case by simp
next
  case (Cons evt rest)
  then have "evt \<noteq> JNull" "js_prop evt ''type'' \<noteq> Inr (Some (JStr ''chunk''))"
    and IH: "chunk_content rest fileContent = Inr fileContent" by simp_all
  then show ?case by (cases evt) (auto split: sum.splits)
qed

text \<open>
  Claim C9. In the loop of \<^verbatim>\<open>syncDirectory\<close>, a file whose stream is read and whose chunk
  events concatenate to the empty string (an empty file, or a stream without any chunk
  event) leaves the count as it was and makes no call but the read: nothing is put. Over
  a whole listing, every put carries a non-empty body, the count grows by the number of
  puts that resolved, and there are at most as many puts as listed files, so that a tree
  of N listed files can yield fewer than N objects.
\<close>

theorem syncDirectory_skips_empty_content:
  "(\<forall>chunks w1.
       sandbox_readFileStream P filePath (fst s) = (Inr chunks, w1)
       \<and> chunk_content (parseSSEEvents (JSON_parse P) (readStreamToString chunks)) [] = Inr []
       \<longrightarrow> sync_file P containerDir r2Prefix filePath count s
             = (count, (w1, snd s @ [ReadFileStream filePath])))
   \<and> (\<forall>evts. list_all (\<lambda>evt. evt \<noteq> JNull \<and> js_prop evt ''type'' \<noteq> Inr (Some (JStr ''chunk''))) evts
         \<longrightarrow> chunk_content evts [] = Inr [])
   \<and> (\<exists>new w'. sync_files P containerDir r2Prefix files count s
                  = (count + upload_successes new, (w', snd s @ new))
         \<and> list_all (\<lambda>(key, body, ok). body \<noteq> []) (uploads new)
         \<and> length (uploads new) \<le> length files)"
proof (intro conjI allI impI)
  fix chunks w1
  assume "sandbox_readFileStream P filePath (fst s) = (Inr chunks, w1)
       \<and> chunk_content (parseSSEEvents (JSON_parse P) (readStreamToString chunks)) [] = Inr []"
  then show "sync_file P containerDir r2Prefix filePath count s
             = (count, (w1, snd s @ [ReadFileStream filePath]))"
    by (simp add: sync_file_def invoke_def Let_def)
next
  fix evts
  assume "list_all (\<lambda>evt. evt \<noteq> JNull \<and> js_prop evt ''type'' \<noteq> Inr (Some (JStr ''chunk''))) evts"
  then show "chunk_content evts [] = Inr []" by (rule chunk_content_without_chunks)
next
  from sync_files_trace[of P containerDir r2Prefix files count s] obtain new w' where
    run: "sync_files P containerDir r2Prefix files count s
            = (count + upload_successes new, (w', snd s @ new))"
    and t: "tree_uploads r2Prefix new" and l: "length (uploads new) \<le> length files" by blast
  from t have "list_all (\<lambda>(key, body, ok). body \<noteq> []) (uploads new)"
    by (auto simp: tree_uploads_def list_all_iff)
  with run l show "\<exists>new w'. sync_files P containerDir r2Prefix files count s
                  = (count + upload_successes new, (w', snd s @ new))
         \<and> list_all (\<lambda>(key, body, ok). body \<noteq> []) (uploads new)
         \<and> length (uploads new) \<le> length files" by blast
qed

theorem syncDirectory_witness:
  \<open>sandbox_readFileStream empty_file_platform ''/root/.openclaw/openclaw.json'' ()
     = (Inr [sse_frame ''{"type":"metadata","mimeType":"text/plain","size":0,"isBinary":false}'',
             sse_frame ''{"type":"complete","bytesRead":0}''], ())
   \<and> chunk_content
         (parseSSEEvents (JSON_parse empty_file_platform)
            (readStreamToString
               [sse_frame ''{"type":"metadata","mimeType":"text/plain","size":0,"isBinary":false}'',
                sse_frame ''{"type":"complete","bytesRead":0}''])) [] = Inr []
   \<and> syncDirectory empty_file_platform ''/root/.openclaw'' ''openclaw'' [] ((), [])
     = (Inr 0, ((), [ExecStream (find_command ''/root/.openclaw'' []),
                     ReadFileStream ''/root/.openclaw/openclaw.json'']))\<close>
  using syncDirectory_skips_empty_content
          [of empty_file_platform "''/root/.openclaw/openclaw.json''"
              "((), [ExecStream (find_command ''/root/.openclaw'' [])])"
              "''/root/.openclaw''" "''openclaw''" 0 "[''/root/.openclaw/openclaw.json'']"]
  by (simp add: empty_file_platform_def mock_platform_def syncDirectory_def listContainerFiles_def
        invoke_def readStreamToString_def sse_frame_def mock_JSON_table_def listing_text_def
        parseSSEEvents_def js_trim_def js_whitespace_def js_startsWith_def
        admitted_paths_def isCleanPath_def sync_file_def Let_def)

section \<open>State sync engine: the corruption sweep\<close>

lemma deletions_append [simp]: "deletions (xs @ ys) = deletions xs @ deletions ys"
  by (induction xs rule: deletions.induct) simp_all

lemma list_calls_append [simp]: "list_calls (xs @ ys) = list_calls xs @ list_calls ys"
  by (induction xs rule: list_calls.induct) simp_all

lemma sweep_trace_append:
  "sweep_trace ks1 e1 \<Longrightarrow> sweep_trace ks2 e2 \<Longrightarrow> sweep_trace (ks1 @ ks2) (e1 @ e2)"
  by (simp add: sweep_trace_def)

lemma sweep_key_trace:
  "\<exists>new deleted' w'. sweep_key P key deleted s = (deleted', (w', snd s @ new))
      \<and> sweep_trace [key] new \<and> list_calls new = []"
proof (cases "corrupt_key key")
  case False
  then have "sweep_key P key deleted s = (deleted, (fst s, snd s @ []))"
    by (simp add: sweep_key_def)
  moreover have "sweep_trace [key] [] \<and> list_calls [] = []"
    using False by (simp add: sweep_trace_def)
  ultimately show ?thesis by blast
next
  case True
  obtain r w1 where del: "bucket_delete P key (fst s) = (r, w1)"
    by (cases "bucket_delete P key (fst s)")
  with True have "sweep_key P key deleted s
      = (if resolved r then deleted + 1 else deleted, (w1, snd s @ [R2Delete key (resolved r)]))"
    by (cases r) (simp_all add: sweep_key_def invoke_def resolved_def)
  moreover have "sweep_trace [key] [R2Delete key (resolved r)]
                 \<and> list_calls [R2Delete key (resolved r)] = []"
    using True by (simp add: sweep_trace_def)
  ultimately show ?thesis by blast
qed

lemma sweep_objects_trace:
  "\<exists>new deleted' w'. sweep_objects P keys deleted s = (deleted', (w', snd s @ new))
      \<and> sweep_trace keys new \<and> list_calls new = []"
proof (induction keys arbitrary: deleted s)
  case Nil
  have "sweep_objects P [] deleted s = (deleted, (fst s, snd s @ []))" by simp
  moreover have "sweep_trace [] [] \<and> list_calls [] = []" by (simp add: sweep_trace_def)
  ultimately show ?case by blast
next
  case (Cons key rest)
  from sweep_key_trace[of P key deleted s] obtain new1 d1 w1 where
    step: "sweep_key P key deleted s = (d1, (w1, snd s @ new1))"
    and t1: "sweep_trace [key] new1" and l1: "list_calls new1 = []" by blast
  from Cons.IH[of d1 "(w1, snd s @ new1)"] obtain new2 d2 w2 where
    loop: "sweep_objects P rest d1 (w1, snd s @ new1) = (d2, (w2, (snd s @ new1) @ new2))"
    and t2: "sweep_trace rest new2" and l2: "list_calls new2 = []" by auto
  have "sweep_objects P (key # rest) deleted s = (d2, (w2, snd s @ (new1 @ new2)))"
    using step loop by simp
  moreover have "sweep_trace (key # rest) (new1 @ new2)"
    using sweep_trace_append[OF t1 t2] by simp
  moreover have "list_calls (new1 @ new2) = []" using l1 l2 by simp
  ultimately show ?case by blast
qed

lemma paginated_listing_nonempty: "paginated_listing page_of n cur = Some pages \<Longrightarrow> pages \<noteq> []"
  by (cases n) (auto split: sum.splits if_splits option.splits)

lemma paginated_listing_ends:
  "paginated_listing page_of n cur = Some pages \<Longrightarrow> \<not> truncated (last pages)"
proof (induction n arbitrary: cur pages)
  case 0
  then show ?case by simp
next
  case (Suc n)
  from Suc.prems obtain page where page: "page_of cur = Inr page"
    by (cases "page_of cur") auto
  show ?case
  proof (cases "truncated page")
    case False
    with Suc.prems page show ?thesis by auto
  next
    case True
    with Suc.prems page obtain c more where
      more: "paginated_listing page_of n (Some c) = Some more" and pages: "pages = page # more"
      by (auto split: option.splits if_splits)
    from paginated_listing_nonempty[OF more] pages have "last pages = last more" by simp
    with Suc.IH[OF more] show ?thesis by simp
  qed
qed

lemma sweep_pages_trace:
  assumes pure: "\<And>cur w. fst (bucket_list P None cur w) = page_of cur"
  shows "paginated_listing page_of n cur = Some pages \<Longrightarrow>
     \<exists>new deleted' w'.
        sweep_pages P cur deleted s = Some (Inr deleted', (w', snd s @ new))
        \<and> sweep_trace (concat (map objects pages)) new
        \<and> list_calls new = (None, cur) # map (\<lambda>page. (None, cursor page)) (butlast pages)"
proof (induction n arbitrary: cur deleted s pages)
  case 0
  then show ?case by simp
next
  case (Suc n)
  obtain lr w1 where call: "bucket_list P None cur (fst s) = (lr, w1)"
    by (cases "bucket_list P None cur (fst s)")
  with pure[of cur "fst s"] have lr: "lr = page_of cur" by simp
  with Suc.prems obtain page where page: "page_of cur = Inr page"
    by (cases "page_of cur") auto
  let ?s1 = "(w1, snd s @ [R2List None cur])"
  from sweep_objects_trace[of P "objects page" deleted ?s1]
  obtain new1 d1 w2 where
    objs: "sweep_objects P (objects page) deleted ?s1 = (d1, (w2, snd ?s1 @ new1))"
    and t1: "sweep_trace (objects page) new1" and l1: "list_calls new1 = []" by blast
  have t0: "sweep_trace [] [R2List None cur]" by (simp add: sweep_trace_def)
  have t01: "sweep_trace (objects page) ([R2List None cur] @ new1)"
    using sweep_trace_append[OF t0 t1] by simp
  show ?case
  proof (cases "next_cursor page")
    case None
    then have last: "pages = [page]"
      using Suc.prems page
      by (auto simp: next_cursor_def split: if_splits option.splits)
    have "sweep_pages P cur deleted s
            = Some (Inr d1, (w2, snd s @ ([R2List None cur] @ new1)))"
      using call lr page objs None
      by (subst sweep_pages.simps) (simp add: invoke_def)
    moreover have "sweep_trace (concat (map objects pages)) ([R2List None cur] @ new1)"
      using t01 last by simp
    moreover have "list_calls ([R2List None cur] @ new1)
                     = (None, cur) # map (\<lambda>page. (None, cursor page)) (butlast pages)"
      using l1 last by simp
    ultimately show ?thesis by blast
  next
    case (Some c)
    then obtain more where more: "paginated_listing page_of n (Some c) = Some more"
      and pages: "pages = page # more" and cur: "cursor page = Some c"
      using Suc.prems page
      by (auto simp: next_cursor_def split: if_splits option.splits)
    from Suc.IH[OF more, of d1 "(w2, snd ?s1 @ new1)"] obtain new2 d2 w3 where
      rest: "sweep_pages P (Some c) d1 (w2, snd ?s1 @ new1)
               = Some (Inr d2, (w3, (snd ?s1 @ new1) @ new2))"
      and t2: "sweep_trace (concat (map objects more)) new2"
      and l2: "list_calls new2 = (None, Some c) # map (\<lambda>page. (None, cursor page)) (butlast more)"
      by auto
    have "sweep_pages P cur deleted s
            = Some (Inr d2, (w3, snd s @ (([R2List None cur] @ new1) @ new2)))"
      using call lr page objs Some rest
      by (subst sweep_pages.simps) (simp add: invoke_def)
    moreover have "sweep_trace (concat (map objects pages)) (([R2List None cur] @ new1) @ new2)"
      using sweep_trace_append[OF t01 t2] pages by simp
    moreover have "list_calls (([R2List None cur] @ new1) @ new2)
                     = (None, cur) # map (\<lambda>page. (None, cursor page)) (butlast pages)"
      using l1 l2 pages cur paginated_listing_nonempty[OF more] by simp
    ultimately show ?thesis by blast
  qed
qed

text \<open>
  Claim C2, as the code has it. Take a listing of the bucket that ends after finitely many
  pages, each truncated page carrying a cursor, and whose calls all resolve. The sweep
  returns; it asks for the first page without a cursor and then for one page per cursor,
  up to the page that is not truncated; it calls delete on exactly the listed keys that
  hold a double quote, an opening brace, or a backslash followed by \<^verbatim>\<open>n\<close>, in listing
  order (a delete that throws is swallowed); and it calls nothing else, so every other
  key is left alone. A key whose only odd character is a closing brace is not deleted.
\<close>

theorem cleanCorruptedR2Keys_sweeps_listing:
  assumes pure: "\<And>cur w. fst (bucket_list P None cur w) = page_of cur"
    and finite: "paginated_listing page_of n None = Some pages"
  shows "\<exists>new w'.
        cleanCorruptedR2Keys P s = Some (Inr (), (w', snd s @ new))
        \<and> map fst (deletions new)
            = filter (\<lambda>key. js_includes key [DQUOTE] \<or> js_includes key ''{''
                              \<or> js_includes key [BACKSLASH, CHR ''n''])
                (concat (map objects pages))
        \<and> list_calls new = (None, None) # map (\<lambda>page. (None, cursor page)) (butlast pages)
        \<and> length new = length (deletions new) + length (list_calls new)
        \<and> \<not> truncated (last pages)"
proof -
  from sweep_pages_trace[of P page_of n None pages 0 s, OF pure finite] obtain new d w' where
    run: "sweep_pages P None 0 s = Some (Inr d, (w', snd s @ new))"
    and t: "sweep_trace (concat (map objects pages)) new"
    and l: "list_calls new = (None, None) # map (\<lambda>page. (None, cursor page)) (butlast pages)"
    by blast
  have "cleanCorruptedR2Keys P s = Some (Inr (), (w', snd s @ new))"
    using run by (simp add: cleanCorruptedR2Keys_def)
  moreover have "map fst (deletions new)
            = filter (\<lambda>key. js_includes key [DQUOTE] \<or> js_includes key ''{''
                              \<or> js_includes key [BACKSLASH, CHR ''n''])
                (concat (map objects pages))"
    using t by (simp add: sweep_trace_def corrupt_key_def[abs_def])
  moreover have "length new = length (deletions new) + length (list_calls new)"
    using t by (simp add: sweep_trace_def)
  moreover have "\<not> truncated (last pages)"
    using finite by (rule paginated_listing_ends)
  ultimately show ?thesis using l by blast
qed

theorem cleanCorruptedR2Keys_witness:
  \<open>paginated_listing sweep_page_of 2 None
     = Some [\<lparr>objects = [''openclaw/openclaw.json'', ''data: {"type":"stdout"'',
                          ''workspace/a}b.md''],
              truncated = True, cursor = Some ''page2''\<rparr>,
             \<lparr>objects = [''workspace/x'' @ [BACKSLASH, CHR ''n''] @ ''y'', ''workspace/say "hi".md'',
                          ''skills/ok.md''],
              truncated = False, cursor = None\<rparr>]
   \<and> cleanCorruptedR2Keys sweep_platform ((), [])
     = Some (Inr (),
        ((), [R2List None None,
              R2Delete ''data: {"type":"stdout"'' True,
              R2List None (Some ''page2''),
              R2Delete (''workspace/x'' @ [BACKSLASH, CHR ''n''] @ ''y'') False,
              R2Delete ''workspace/say "hi".md'' True]))\<close>
proof -
  have pure: "\<And>cur w. fst (bucket_list sweep_platform None cur w) = sweep_page_of cur"
    by (simp add: sweep_platform_def mock_platform_def)
  have finite: \<open>paginated_listing sweep_page_of (Suc (Suc 0)) None
     = Some [\<lparr>objects = [''openclaw/openclaw.json'', ''data: {"type":"stdout"'',
                          ''workspace/a}b.md''],
              truncated = True, cursor = Some ''page2''\<rparr>,
             \<lparr>objects = [''workspace/x'' @ [BACKSLASH, CHR ''n''] @ ''y'', ''workspace/say "hi".md'',
                          ''skills/ok.md''],
              truncated = False, cursor = None\<rparr>]\<close>
    by (simp add: sweep_page_of_def)
  have run: \<open>cleanCorruptedR2Keys sweep_platform ((), [])
     = Some (Inr (),
        ((), [R2List None None,
              R2Delete ''data: {"type":"stdout"'' True,
              R2List None (Some ''page2''),
              R2Delete (''workspace/x'' @ [BACKSLASH, CHR ''n''] @ ''y'') False,
              R2Delete ''workspace/say "hi".md'' True]))\<close>
    by (simp add: cleanCorruptedR2Keys_def sweep_pages.simps sweep_platform_def mock_platform_def
          sweep_page_of_def invoke_def sweep_key_def corrupt_key_def next_cursor_def resolved_def)
  from cleanCorruptedR2Keys_sweeps_listing[OF pure finite, of "((), [])"] finite run
  show ?thesis by (simp add: numeral_2_eq_2)
qed

theorem cleanCorruptedR2Keys_counterexample:
  "js_includes ''workspace/a}b.md'' ''}''
   \<and> bucket_list brace_platform None None ()
       = (Inr \<lparr>objects = [''workspace/a}b.md''], truncated = False, cursor = None\<rparr>, ())
   \<and> cleanCorruptedR2Keys brace_platform ((), []) = Some (Inr (), ((), [R2List None None]))"
  by (simp add: cleanCorruptedR2Keys_def sweep_pages.simps brace_platform_def mock_platform_def
        brace_page_of_def invoke_def sweep_key_def corrupt_key_def next_cursor_def resolved_def)

section \<open>State sync engine: the outcome of a pass\<close>

lemma tree_key_not_marker: "js_startsWith key (pre @ ''/'') \<Longrightarrow> key \<noteq> ''.last-sync''"
proof
  assume "js_startsWith key (pre @ ''/'')" and "key = ''.last-sync''"
  then obtain post where "''.last-sync'' = (pre @ ''/'') @ post"
    by (auto simp: js_startsWith_def prefix_def)
  then have "CHR ''/'' \<in> set ''.last-sync''" by (metis in_set_conv_decomp append.assoc append_Cons append_Nil)
  then show False by simp
qed

lemma tree_uploads_files:
  "tree_uploads pre evs \<Longrightarrow> file_puts evs = uploads evs \<and> marker_puts evs = []"
  unfolding tree_uploads_def file_puts_def marker_puts_def list_all_iff
  by (auto simp: filter_id_conv filter_empty_conv dest: tree_key_not_marker)

lemma tree_uploads_counts:
  "tree_uploads pre evs \<Longrightarrow> files_uploaded evs = upload_successes evs \<and> marker_puts evs = []"
  using tree_uploads_files[of pre evs] by (simp add: files_uploaded_def upload_successes_def)

lemma files_uploaded_append [simp]:
  "files_uploaded (xs @ ys) = files_uploaded xs + files_uploaded ys"
  by (simp add: files_uploaded_def file_puts_def)

lemma marker_puts_append [simp]: "marker_puts (xs @ ys) = marker_puts xs @ marker_puts ys"
  by (simp add: marker_puts_def)

lemma syncDirectory_trace:
  "\<exists>new w' r. syncDirectory P dir pre ex s = (r, (w', snd s @ new))
      \<and> marker_puts new = []
      \<and> files_uploaded new = add_if_resolved 0 r"
proof -
  obtain ls s1 where ls: "listContainerFiles P dir ex s = (ls, s1)"
    by (cases "listContainerFiles P dir ex s")
  then have s1: "s1 = (fst s1, snd s @ [ExecStream (find_command dir ex)])"
    by (auto simp: listContainerFiles_def Let_def invoke_def split: prod.splits sum.splits)
  let ?e0 = "[ExecStream (find_command dir ex)]"
  have q0: "marker_puts ?e0 = []" "files_uploaded ?e0 = 0"
    by (simp_all add: marker_puts_def files_uploaded_def file_puts_def)
  show ?thesis
  proof (cases ls)
    case (Inl e)
    with ls s1 have "syncDirectory P dir pre ex s = (Inl e, (fst s1, snd s @ ?e0))"
      by (simp add: syncDirectory_def)
    moreover have "files_uploaded ?e0 = add_if_resolved 0 (Inl e)"
      using q0 by (simp add: add_if_resolved_def)
    ultimately show ?thesis using q0(1) by blast
  next
    case (Inr files)
    from sync_files_trace[of P dir pre files 0 s1] obtain new w' where
      run: "sync_files P dir pre files 0 s1 = (0 + upload_successes new, (w', snd s1 @ new))"
      and t: "tree_uploads pre new" by blast
    from s1 have snd1: "snd s1 = snd s @ ?e0" by (metis snd_conv)
    have "syncDirectory P dir pre ex s
            = (Inr (upload_successes new), (w', snd s @ (?e0 @ new)))"
      using ls Inr run snd1 by (simp add: syncDirectory_def)
    moreover have "marker_puts (?e0 @ new) = []"
      using tree_uploads_counts[OF t] by (simp add: marker_puts_def)
    moreover have "files_uploaded (?e0 @ new) = add_if_resolved 0 (Inr (upload_successes new))"
      using tree_uploads_counts[OF t]
      by (simp add: files_uploaded_def file_puts_def add_if_resolved_def)
    ultimately show ?thesis by blast
  qed
qed

lemma sync_trees_outcome:
  assumes listed: "listContainerFiles P configDir [] s = (Inr files, s0)"
  obtains result new w' where
    "sync_trees P configDir s = (result, (w', snd s @ new))"
    "files_uploaded new = 0 \<longrightarrow>
       success result = False \<and> error result = Some ''Nothing to sync''
       \<and> lastSync result = None \<and> marker_puts new = []"
    "files_uploaded new > 0 \<longrightarrow>
       (\<exists>now ok front.
           new = front @ [DateISO now, R2Put ''.last-sync'' now ok]
           \<and> marker_puts new = [(''.last-sync'', now, ok)]
           \<and> (ok \<longrightarrow> result =
                 \<lparr>success = True, lastSync = Some now, error = None,
                  details = Some (''Synced '' @ show_nat (files_uploaded new)
                                  @ '' files to R2 (direct file transfer)'')\<rparr>)
           \<and> (\<not> ok \<longrightarrow> success result = False \<and> error result = Some ''Sync error''
                         \<and> lastSync result = None))"
proof -
  from syncDirectory_trace[of P configDir "''openclaw''" "[]" s] obtain n1 w1 r1 where
    d1: "syncDirectory P configDir ''openclaw'' [] s = (r1, (w1, snd s @ n1))"
    and m1: "marker_puts n1 = []" and f1: "files_uploaded n1 = add_if_resolved 0 r1" by blast
  from listed d1 obtain c1 where r1: "r1 = Inr c1"
    by (auto simp: syncDirectory_def split: prod.splits)
  let ?s1 = "(w1, snd s @ n1)"
  from syncDirectory_trace[of P "''/root/clawd''" "''workspace''" "[''skills'']" ?s1]
  obtain n2 w2 r2 where
    d2: "syncDirectory P ''/root/clawd'' ''workspace'' [''skills''] ?s1 = (r2, (w2, snd ?s1 @ n2))"
    and m2: "marker_puts n2 = []" and f2: "files_uploaded n2 = add_if_resolved 0 r2" by blast
  let ?s2 = "(w2, snd ?s1 @ n2)"
  from syncDirectory_trace[of P "''/root/clawd/skills''" "''skills''" "[]" ?s2]
  obtain n3 w3 r3 where
    d3: "syncDirectory P ''/root/clawd/skills'' ''skills'' [] ?s2 = (r3, (w3, snd ?s2 @ n3))"
    and m3: "marker_puts n3 = []" and f3: "files_uploaded n3 = add_if_resolved 0 r3" by blast
  let ?trees = "n1 @ n2 @ n3"
  let ?total = "add_if_resolved (add_if_resolved (0 + c1) r2) r3"
  have total: "?total = files_uploaded ?trees"
    using f1 f2 f3 r1 by (cases r2; cases r3) (simp_all add: add_if_resolved_def)
  have mt: "marker_puts ?trees = []" using m1 m2 m3 by simp
  show ?thesis
  proof (cases "?total > 0")
    case False
    define result where
      "result = nothing_to_sync ''Config directory exists but contained no syncable files.''"
    define new where "new = ?trees"
    from False have run': "sync_trees P configDir s = (result, (w3, snd s @ new))"
      unfolding result_def new_def using d1 r1 d2 d3 by (simp add: sync_trees_def Let_def)
    have zero': "files_uploaded new = 0 \<longrightarrow>
            success result = False \<and> error result = Some ''Nothing to sync''
            \<and> lastSync result = None \<and> marker_puts new = []"
      unfolding result_def new_def using mt by (simp add: nothing_to_sync_def)
    have "\<not> 0 < files_uploaded new" unfolding new_def using False total by simp
    then have some': "files_uploaded new > 0 \<longrightarrow> (\<exists>now' ok front.
                new = front @ [DateISO now', R2Put ''.last-sync'' now' ok]
                \<and> marker_puts new = [(''.last-sync'', now', ok)]
                \<and> (ok \<longrightarrow> result =
                      \<lparr>success = True, lastSync = Some now', error = None,
                       details = Some (''Synced '' @ show_nat (files_uploaded new)
                                       @ '' files to R2 (direct file transfer)'')\<rparr>)
                \<and> (\<not> ok \<longrightarrow> success result = False \<and> error result = Some ''Sync error''
                              \<and> lastSync result = None))"
      by blast
    show ?thesis by (rule that[OF run' zero' some'])
  next
    case True
    obtain now w4 where clock: "Date_toISOString P w3 = (now, w4)"
      by (cases "Date_toISOString P w3")
    obtain pr w5 where put: "bucket_put P ''.last-sync'' now w4 = (pr, w5)"
      by (cases "bucket_put P ''.last-sync'' now w4")
    let ?new = "?trees @ [DateISO now, R2Put ''.last-sync'' now (resolved pr)]"
    let ?result = "case pr of
                     Inl err \<Rightarrow> sync_error err
                   | Inr u \<Rightarrow> \<lparr>success = True, lastSync = Some now, error = None,
                               details = Some (''Synced '' @ show_nat ?total
                                               @ '' files to R2 (direct file transfer)'')\<rparr>"
    have run: "sync_trees P configDir s = (?result, (w5, snd s @ ?new))"
      using True d1 r1 d2 d3 clock put
      by (cases pr) (simp_all add: sync_trees_def Let_def invoke_def resolved_def)
    have fu: "files_uploaded ?new = ?total"
      using total by (simp add: files_uploaded_def file_puts_def)
    have mp: "marker_puts ?new = [(''.last-sync'', now, resolved pr)]"
      using mt by (simp add: marker_puts_def)
    have ok: "resolved pr \<longrightarrow> ?result =
                      \<lparr>success = True, lastSync = Some now, error = None,
                       details = Some (''Synced '' @ show_nat (files_uploaded ?new)
                                       @ '' files to R2 (direct file transfer)'')\<rparr>"
      using fu by (cases pr) (simp_all add: resolved_def)
    have ko: "\<not> resolved pr \<longrightarrow> success ?result = False \<and> error ?result = Some ''Sync error''
                              \<and> lastSync ?result = None"
      by (cases pr) (simp_all add: resolved_def sync_error_def)
    have nz: "files_uploaded ?new \<noteq> 0" using fu True by linarith
    have zero: "files_uploaded ?new = 0 \<longrightarrow>
            success ?result = False \<and> error ?result = Some ''Nothing to sync''
            \<and> lastSync ?result = None \<and> marker_puts ?new = []"
      using nz by blast
    have "?new = ?trees @ [DateISO now, R2Put ''.last-sync'' now (resolved pr)]
          \<and> marker_puts ?new = [(''.last-sync'', now, resolved pr)]
          \<and> (resolved pr \<longrightarrow> ?result =
                      \<lparr>success = True, lastSync = Some now, error = None,
                       details = Some (''Synced '' @ show_nat (files_uploaded ?new)
                                       @ '' files to R2 (direct file transfer)'')\<rparr>)
          \<and> (\<not> resolved pr \<longrightarrow> success ?result = False \<and> error ?result = Some ''Sync error''
                              \<and> lastSync ?result = None)"
      using mp ok ko by blast
    then have some: "\<exists>now' ok front.
                ?new = front @ [DateISO now', R2Put ''.last-sync'' now' ok]
                \<and> marker_puts ?new = [(''.last-sync'', now', ok)]
                \<and> (ok \<longrightarrow> ?result =
                      \<lparr>success = True, lastSync = Some now', error = None,
                       details = Some (''Synced '' @ show_nat (files_uploaded ?new)
                                       @ '' files to R2 (direct file transfer)'')\<rparr>)
                \<and> (\<not> ok \<longrightarrow> success ?result = False \<and> error ?result = Some ''Sync error''
                              \<and> lastSync ?result = None)"
      by blast
    define result where "result = ?result"
    define new where "new = ?new"
    have run': "sync_trees P configDir s = (result, (w5, snd s @ new))"
      unfolding result_def new_def by (rule run)
    have zero': "files_uploaded new = 0 \<longrightarrow>
            success result = False \<and> error result = Some ''Nothing to sync''
            \<and> lastSync result = None \<and> marker_puts new = []"
      unfolding result_def new_def by (rule zero)
    have some': "files_uploaded new > 0 \<longrightarrow> (\<exists>now' ok front.
                new = front @ [DateISO now', R2Put ''.last-sync'' now' ok]
                \<and> marker_puts new = [(''.last-sync'', now', ok)]
                \<and> (ok \<longrightarrow> result =
                      \<lparr>success = True, lastSync = Some now', error = None,
                       details = Some (''Synced '' @ show_nat (files_uploaded new)
                                       @ '' files to R2 (direct file transfer)'')\<rparr>)
                \<and> (\<not> ok \<longrightarrow> success result = False \<and> error result = Some ''Sync error''
                              \<and> lastSync result = None))"
      unfolding result_def new_def using some by (rule impI)
    show ?thesis by (rule that[OF run' zero' some'])
  qed
qed

text \<open>
  Claim C1, as the code has it. Take a run of \<^verbatim>\<open>syncToR2\<close> with a bucket binding that finds
  a config directory. If the corruption sweep throws, the call throws; if the sweep never
  ends, neither does the call. If the sweep returns and the listing of the config tree
  throws, the result is the failure \<^verbatim>\<open>Sync error\<close>. If the sweep returns and that listing
  resolves, then, counting the puts of files that resolved after the sweep (the three
  trees): when the count is zero the result is the failure \<^verbatim>\<open>Nothing to sync\<close> and nothing
  is put under \<^verbatim>\<open>.last-sync\<close>; when it is positive the pass ends by reading the clock and
  putting that timestamp under \<^verbatim>\<open>.last-sync\<close> (the only such put), and the result is the
  success carrying the same timestamp and the count if the put resolves, the failure
  \<^verbatim>\<open>Sync error\<close> if it throws.
\<close>

theorem syncToR2_outcome:
  assumes bucket: "has_bucket P"
    and found: "find_configDir P s = (Some configDir, s1)"
  shows "(cleanCorruptedR2Keys P s1 = None \<longrightarrow> syncToR2 P s = None)
     \<and> (\<forall>e s2. cleanCorruptedR2Keys P s1 = Some (Inl e, s2) \<longrightarrow> syncToR2 P s = Some (Inl e, s2))
     \<and> (\<forall>s2. cleanCorruptedR2Keys P s1 = Some (Inr (), s2) \<longrightarrow>
           (\<forall>e s3. listContainerFiles P configDir [] s2 = (Inl e, s3) \<longrightarrow>
               syncToR2 P s = Some (Inr (sync_error e), s3))
         \<and> (\<forall>files s3. listContainerFiles P configDir [] s2 = (Inr files, s3) \<longrightarrow>
               (\<exists>result new w'. syncToR2 P s = Some (Inr result, (w', snd s2 @ new))
                  \<and> (files_uploaded new = 0 \<longrightarrow>
                        success result = False \<and> error result = Some ''Nothing to sync''
                        \<and> lastSync result = None \<and> marker_puts new = [])
                  \<and> (files_uploaded new > 0 \<longrightarrow>
                        (\<exists>now ok front.
                            new = front @ [DateISO now, R2Put ''.last-sync'' now ok]
                            \<and> marker_puts new = [(''.last-sync'', now, ok)]
                            \<and> (ok \<longrightarrow> result =
                                  \<lparr>success = True, lastSync = Some now, error = None,
                                   details = Some (''Synced '' @ show_nat (files_uploaded new)
                                                   @ '' files to R2 (direct file transfer)'')\<rparr>)
                            \<and> (\<not> ok \<longrightarrow> success result = False
                                          \<and> error result = Some ''Sync error''
                                          \<and> lastSync result = None))))))"
proof (intro conjI allI impI)
  assume "cleanCorruptedR2Keys P s1 = None"
  then show "syncToR2 P s = None" using bucket found by (simp add: syncToR2_def)
next
  fix e s2
  assume "cleanCorruptedR2Keys P s1 = Some (Inl e, s2)"
  then show "syncToR2 P s = Some (Inl e, s2)" using bucket found by (simp add: syncToR2_def)
next
  fix s2 e s3
  assume "cleanCorruptedR2Keys P s1 = Some (Inr (), s2)"
    and "listContainerFiles P configDir [] s2 = (Inl e, s3)"
  then show "syncToR2 P s = Some (Inr (sync_error e), s3)"
    using bucket found by (simp add: syncToR2_def sync_trees_def syncDirectory_def)
next
  fix s2 files s3
  assume swept: "cleanCorruptedR2Keys P s1 = Some (Inr (), s2)"
    and listed: "listContainerFiles P configDir [] s2 = (Inr files, s3)"
  from listed obtain result new w' where
    run: "sync_trees P configDir s2 = (result, (w', snd s2 @ new))"
    and zero: "files_uploaded new = 0 \<longrightarrow>
            success result = False \<and> error result = Some ''Nothing to sync''
            \<and> lastSync result = None \<and> marker_puts new = []"
    and some: "files_uploaded new > 0 \<longrightarrow>
            (\<exists>now ok front.
                new = front @ [DateISO now, R2Put ''.last-sync'' now ok]
                \<and> marker_puts new = [(''.last-sync'', now, ok)]
                \<and> (ok \<longrightarrow> result =
                      \<lparr>success = True, lastSync = Some now, error = None,
                       details = Some (''Synced '' @ show_nat (files_uploaded new)
                                       @ '' files to R2 (direct file transfer)'')\<rparr>)
                \<and> (\<not> ok \<longrightarrow> success result = False \<and> error result = Some ''Sync error''
                              \<and> lastSync result = None))"
    by (rule sync_trees_outcome)
  have top: "syncToR2 P s = Some (Inr result, (w', snd s2 @ new))"
    using bucket found swept run by (simp add: syncToR2_def)
  show "\<exists>result new w'. syncToR2 P s = Some (Inr result, (w', snd s2 @ new))
                  \<and> (files_uploaded new = 0 \<longrightarrow>
                        success result = False \<and> error result = Some ''Nothing to sync''
                        \<and> lastSync result = None \<and> marker_puts new = [])
                  \<and> (files_uploaded new > 0 \<longrightarrow>
                        (\<exists>now ok front.
                            new = front @ [DateISO now, R2Put ''.last-sync'' now ok]
                            \<and> marker_puts new = [(''.last-sync'', now, ok)]
                            \<and> (ok \<longrightarrow> result =
                                  \<lparr>success = True, lastSync = Some now, error = None,
                                   details = Some (''Synced '' @ show_nat (files_uploaded new)
                                                   @ '' files to R2 (direct file transfer)'')\<rparr>)
                            \<and> (\<not> ok \<longrightarrow> success result = False
                                          \<and> error result = Some ''Sync error''
                                          \<and> lastSync result = None)))"
    by (rule exI[of _ result], rule exI[of _ new], rule exI[of _ w'],
        rule conjI[OF top conjI[OF zero some]])
qed

lemmas mock_run_defs =
  mock_platform_def
  syncToR2_def find_configDir_def probe_dir_def cleanCorruptedR2Keys_def sweep_pages.simps
  next_cursor_def sync_trees_def syncDirectory_def listContainerFiles_def find_command_def
  invoke_def readStreamToString_def sse_frame_def mock_JSON_table_def listing_text_def
  parseSSEEvents_def js_trim_def js_whitespace_def js_startsWith_def
  admitted_paths_def isCleanPath_def sync_file_def Let_def resolved_def add_if_resolved_def
  sync_error_def error_message_def nothing_to_sync_def

theorem syncToR2_witness:
  \<open>has_bucket sync_platform
   \<and> find_configDir sync_platform ((), [])
       = (Some ''/root/.openclaw'', ((), [ExecStream (find_command ''/root/.openclaw'' [])]))
   \<and> cleanCorruptedR2Keys sync_platform ((), [ExecStream (find_command ''/root/.openclaw'' [])])
       = Some (Inr (), ((), [ExecStream (find_command ''/root/.openclaw'' []), R2List None None]))
   \<and> syncToR2 sync_platform ((), [])
       = Some (Inr \<lparr>success = True, lastSync = Some ''2026-01-01T00:00:00.000Z'', error = None,
                    details = Some ''Synced 1 files to R2 (direct file transfer)''\<rparr>,
               ((), [ExecStream (find_command ''/root/.openclaw'' []),
                     R2List None None,
                     ExecStream (find_command ''/root/.openclaw'' []),
                     ReadFileStream ''/root/.openclaw/openclaw.json'',
                     R2Put ''openclaw/openclaw.json'' ''# Identity'' True,
                     ExecStream (find_command ''/root/clawd'' [''skills'']),
                     ExecStream (find_command ''/root/clawd/skills'' []),
                     DateISO ''2026-01-01T00:00:00.000Z'',
                     R2Put ''.last-sync'' ''2026-01-01T00:00:00.000Z'' True]))\<close>
proof -
  have bucket: "has_bucket sync_platform"
    by (simp add: sync_platform_def mock_platform_def)
  have found: \<open>find_configDir sync_platform ((), [])
       = (Some ''/root/.openclaw'', ((), [ExecStream (find_command ''/root/.openclaw'' [])]))\<close>
    by (simp add: sync_platform_def mock_run_defs)
  have swept: \<open>cleanCorruptedR2Keys sync_platform ((), [ExecStream (find_command ''/root/.openclaw'' [])])
       = Some (Inr (), ((), [ExecStream (find_command ''/root/.openclaw'' []), R2List None None]))\<close>
    by (simp add: sync_platform_def mock_run_defs)
  have run: \<open>syncToR2 sync_platform ((), [])
       = Some (Inr \<lparr>success = True, lastSync = Some ''2026-01-01T00:00:00.000Z'', error = None,
                    details = Some ''Synced 1 files to R2 (direct file transfer)''\<rparr>,
               ((), [ExecStream (find_command ''/root/.openclaw'' []),
                     R2List None None,
                     ExecStream (find_command ''/root/.openclaw'' []),
                     ReadFileStream ''/root/.openclaw/openclaw.json'',
                     R2Put ''openclaw/openclaw.json'' ''# Identity'' True,
                     ExecStream (find_command ''/root/clawd'' [''skills'']),
                     ExecStream (find_command ''/root/clawd/skills'' []),
                     DateISO ''2026-01-01T00:00:00.000Z'',
                     R2Put ''.last-sync'' ''2026-01-01T00:00:00.000Z'' True]))\<close>
    by (simp add: sync_platform_def mock_run_defs show_nat.simps digit_char_def)
  show ?thesis
    using syncToR2_outcome[OF bucket found] bucket found swept run by (intro conjI)
qed

theorem syncToR2_counterexample:
  \<open>syncToR2 marker_fails_platform ((), [])
       = Some (Inr \<lparr>success = False, lastSync = None, error = Some ''Sync error'',
                    details = Some ''put failed''\<rparr>,
               ((), [ExecStream (find_command ''/root/.openclaw'' []),
                     R2List None None,
                     ExecStream (find_command ''/root/.openclaw'' []),
                     ReadFileStream ''/root/.openclaw/openclaw.json'',
                     R2Put ''openclaw/openclaw.json'' ''# Identity'' True,
                     ExecStream (find_command ''/root/clawd'' [''skills'']),
                     ExecStream (find_command ''/root/clawd/skills'' []),
                     DateISO ''2026-01-01T00:00:00.000Z'',
                     R2Put ''.last-sync'' ''2026-01-01T00:00:00.000Z'' False]))\<close>
  by (simp add: marker_fails_platform_def sync_platform_def mock_run_defs)

end
